theory Spec2Isabelle
  imports Main "HOL-Library.AList" "HOL-Library.Char_ord" "HOL-Library.List_Lexorder"
    "HOL-Library.Product_Lexorder"
begin

section \<open>Python string primitives used by the token manager\<close>

text \<open>
  File names and file contents are ASCII strings. The functions below are the
  Python built-ins that \<open>proxy_refactored.py\<close> applies to them:
  \<open>str.endswith\<close>, \<open>str.replace\<close>, \<open>str.strip\<close>, \<open>int(str)\<close> and the
  formatting of an integer (or \<open>None\<close>) inside an f-string.
\<close>

definition endswith :: "string \<Rightarrow> string \<Rightarrow> bool" where
  "endswith s suf = (length suf \<le> length s \<and> drop (length s - length suf) s = suf)"

text \<open>
  \<open>s.replace(old, new)\<close> for a non-empty \<open>old\<close>: every non-overlapping
  occurrence, scanning from the left. The source only calls it with
  \<open>old = ".copilot_token"\<close>.
\<close>

function replace_all :: "string \<Rightarrow> string \<Rightarrow> string \<Rightarrow> string" where
  "replace_all old new [] = []"
| "replace_all old new (c # cs) =
     (if old \<noteq> [] \<and> take (length old) (c # cs) = old
      then new @ replace_all old new (drop (length old) (c # cs))
      else c # replace_all old new cs)"
  by pat_completeness auto
termination
  by (relation "measure (\<lambda>(old, new, s). length s)") auto

text \<open>The ASCII characters that \<open>str.strip()\<close> treats as white space.\<close>

definition is_space :: "char \<Rightarrow> bool" where
  "is_space c = (c \<in> set [CHR 0x09, CHR 0x0A, CHR 0x0B, CHR 0x0C, CHR 0x0D,
                           CHR 0x1C, CHR 0x1D, CHR 0x1E, CHR 0x1F, CHR '' ''])"

definition strip :: "string \<Rightarrow> string" where
  "strip s = rev (dropWhile is_space (rev (dropWhile is_space s)))"

text \<open>
  \<open>int()\<close> of an ASCII string skips fewer characters around the number than
  \<open>str.strip()\<close> removes: tab, line feed, vertical tab, form feed, carriage
  return and space, and not the separators \<open>0x1C\<close> to \<open>0x1F\<close>.
\<close>

definition is_c_space :: "char \<Rightarrow> bool" where
  "is_c_space c = (c \<in> set [CHR 0x09, CHR 0x0A, CHR 0x0B, CHR 0x0C, CHR 0x0D, CHR '' ''])"

definition strip_c_space :: "string \<Rightarrow> string" where
  "strip_c_space s = rev (dropWhile is_c_space (rev (dropWhile is_c_space s)))"

definition is_digit :: "char \<Rightarrow> bool" where
  "is_digit c = (c \<in> set ''0123456789'')"

definition digit_val :: "char \<Rightarrow> nat" where
  "digit_val c = of_char c - 48"

text \<open>
  The digits of a decimal literal: at least one digit, single underscores
  allowed between digits only. \<open>prev\<close> says that the character before was
  a digit.
\<close>

fun parse_digits :: "nat \<Rightarrow> bool \<Rightarrow> string \<Rightarrow> nat option" where
  "parse_digits acc prev [] = (if prev then Some acc else None)"
| "parse_digits acc prev (c # cs) =
     (if is_digit c then parse_digits (10 * acc + digit_val c) True cs
      else if c = CHR ''_'' \<and> prev then parse_digits acc False cs
      else None)"

text \<open>
  \<open>int(s)\<close> in base 10: \<open>None\<close> stands for the \<open>ValueError\<close> the source
  catches. The source applies it to parts of file names, which are too short to
  reach the limit on the number of digits that \<open>int()\<close> converts.
\<close>

definition py_int :: "string \<Rightarrow> int option" where
  "py_int s =
     (case strip_c_space s of
        [] \<Rightarrow> None
      | c # cs \<Rightarrow>
          if c = CHR ''-'' then map_option (\<lambda>n. - int n) (parse_digits 0 False cs)
          else if c = CHR ''+'' then map_option int (parse_digits 0 False cs)
          else map_option int (parse_digits 0 False (c # cs)))"

definition digit_char :: "nat \<Rightarrow> char" where
  "digit_char d = ''0123456789'' ! d"

fun str_nat :: "nat \<Rightarrow> string" where
  "str_nat n = (if n < 10 then [digit_char n] else str_nat (n div 10) @ [digit_char (n mod 10)])"

declare str_nat.simps [simp del]

definition str_int :: "int \<Rightarrow> string" where
  "str_int i = (if i < 0 then CHR ''-'' # str_nat (nat (- i)) else str_nat (nat i))"

text \<open>\<open>f"{reset_date}"\<close> where \<open>reset_date\<close> is an integer or \<open>None\<close>.\<close>

definition format_reset_date :: "int option \<Rightarrow> string" where
  "format_reset_date d = (case d of None \<Rightarrow> ''None'' | Some t \<Rightarrow> str_int t)"


section \<open>The token directories and the manager's state\<close>

text \<open>
  A directory is the list of its entries (name, contents) in the order
  \<open>os.listdir\<close> reports them. A subdirectory, such as \<open>QuotaExhausted\<close>
  inside the tokens directory, is an entry with empty contents: the manager
  opens and renames only names that end with \<open>.copilot_token\<close>.
  \<open>os.rename\<close> has the POSIX meaning: an existing destination file is replaced
  silently.
\<close>

type_synonym directory = "(string \<times> string) list"

definition listdir :: "directory \<Rightarrow> string list" where
  "listdir d = map fst d"

definition exists :: "directory \<Rightarrow> string \<Rightarrow> bool" where
  "exists d name = (name \<in> set (listdir d))"

definition token_ext :: string where
  "token_ext = ''.copilot_token''"

text \<open>The primary slot: the file \<open>.copilot_token\<close> of the tokens directory.\<close>

definition primary :: string where
  "primary = ''.copilot_token''"

text \<open>
  \<open>os.rename\<close> of a file inside one directory. The source renames only a
  file it has just found in the listing, so the branch for a missing source
  file is not reached from \<open>load_token\<close>.
\<close>

definition rename_within :: "string \<Rightarrow> string \<Rightarrow> directory \<Rightarrow> directory" where
  "rename_within src dst d =
     (case map_of d src of
        None \<Rightarrow> d
      | Some content \<Rightarrow>
          if src = dst then d else AList.update dst content (AList.delete src d))"

text \<open>
  The fields of \<open>CopilotTokenManager\<close> together with the contents of the two
  directories it names and \<open>config.API_URL\<close>. JSON objects are association
  lists.
\<close>

record manager =
  tokens_dir :: directory
  quota_exhausted_dir :: directory
  current_token :: "string option"
  current_quota_info :: "(string \<times> int) list"
  telemetry_enabled :: bool
  api_url :: string

text \<open>
  The JSON answer of the identity endpoint, with the fields \<open>load_token\<close>
  reads; an absent key is \<open>None\<close>.
\<close>

record api_response =
  token :: "string option"
  limited_user_quotas :: "(string \<times> int) list option"
  limited_user_reset_date :: "int option"
  telemetry :: "string option"
  endpoints :: "(string \<times> string) list option"

text \<open>
  What \<open>load_token\<close> takes from outside the process: the clock, the answer
  of \<open>_fetch_copilot_token\<close> at each attempt (\<open>None\<close> is a
  \<open>RequestException\<close>), and what other processes do to the tokens directory
  between the promotion of a candidate and the opening of the primary file.
\<close>

record environment =
  now :: int
  fetch :: "nat \<Rightarrow> string \<Rightarrow> api_response option"
  race :: "nat \<Rightarrow> directory \<Rightarrow> directory"

definition MAX_TOKEN_ROTATION_ATTEMPTS :: nat where
  "MAX_TOKEN_ROTATION_ATTEMPTS = 100"


section \<open>The credential store\<close>

definition get_available_token_count :: "manager \<Rightarrow> nat" where
  "get_available_token_count m =
     length (filter (\<lambda>f. endswith f token_ext) (listdir (tokens_dir m)))"

text \<open>
  One round of the loop of \<open>_recover_expired_tokens\<close> for one file name of
  the listing taken before the loop. The constructor creates the exhausted
  directory, so the early return for a missing directory is not modelled; the
  names of a listing are distinct, so the file of the name at hand is still
  there.
\<close>

definition recover_step :: "int \<Rightarrow> string \<Rightarrow> nat \<times> manager \<Rightarrow> nat \<times> manager" where
  "recover_step current_time filename acc =
     (if \<not> endswith filename token_ext then acc
      else case py_int (replace_all token_ext '''' filename) of
        None \<Rightarrow> acc
      | Some reset_timestamp \<Rightarrow>
          if reset_timestamp < current_time then
            (case map_of (quota_exhausted_dir (snd acc)) filename of
               None \<Rightarrow> acc
             | Some content \<Rightarrow>
                 (fst acc + 1,
                  (snd acc)\<lparr>quota_exhausted_dir := AList.delete filename (quota_exhausted_dir (snd acc)),
                            tokens_dir := AList.update filename content (tokens_dir (snd acc))\<rparr>))
          else acc)"

definition recover_expired_tokens :: "int \<Rightarrow> manager \<Rightarrow> nat \<times> manager" where
  "recover_expired_tokens current_time m =
     fold (recover_step current_time) (listdir (quota_exhausted_dir m)) (0, m)"

text \<open>The numbered tokens of \<open>_find_next_available_token\<close>, as (number, file name).\<close>

definition numbered_tokens :: "directory \<Rightarrow> (int \<times> string) list" where
  "numbered_tokens d =
     concat (map (\<lambda>filename.
        if endswith filename token_ext \<and> filename \<noteq> primary then
          (case py_int (replace_all token_ext '''' filename) of
             None \<Rightarrow> []
           | Some num \<Rightarrow> [(num, filename)])
        else []) (listdir d))"

definition find_next_available_token :: "directory \<Rightarrow> string option" where
  "find_next_available_token d =
     (if exists d primary then Some primary
      else case sort (numbered_tokens d) of
        [] \<Rightarrow> None
      | t # ts \<Rightarrow> Some (snd t))"

definition promote_token_to_primary :: "string \<Rightarrow> directory \<Rightarrow> directory" where
  "promote_token_to_primary token_path d =
     (if token_path \<noteq> primary then rename_within token_path primary d else d)"

text \<open>
  The demotion inside \<open>load_token\<close>: the primary file is renamed into the
  exhausted directory under the name made of the reset date.
\<close>

definition demote :: "int option \<Rightarrow> manager \<Rightarrow> manager" where
  "demote reset_date m =
     (case map_of (tokens_dir m) primary of
        None \<Rightarrow> m
      | Some content \<Rightarrow>
          m\<lparr>tokens_dir := AList.delete primary (tokens_dir m),
            quota_exhausted_dir :=
              AList.update (format_reset_date reset_date @ token_ext) content
                (quota_exhausted_dir m)\<rparr>)"


section \<open>The session manager\<close>

text \<open>\<open>quota_info.get('chat', 1)\<close> with \<open>quota_info\<close> defaulting to the empty object.\<close>

definition quota_info_of :: "api_response \<Rightarrow> (string \<times> int) list" where
  "quota_info_of r = (case limited_user_quotas r of None \<Rightarrow> [] | Some q \<Rightarrow> q)"

definition chat_quota :: "api_response \<Rightarrow> int" where
  "chat_quota r = (case map_of (quota_info_of r) ''chat'' of None \<Rightarrow> 1 | Some q \<Rightarrow> q)"

definition telemetry_flag :: "api_response \<Rightarrow> bool" where
  "telemetry_flag r = (telemetry r \<noteq> Some ''disabled'')"

definition commit :: "api_response \<Rightarrow> manager \<Rightarrow> manager" where
  "commit r m =
     m\<lparr>current_token := token r,
       current_quota_info := quota_info_of r,
       telemetry_enabled := telemetry_flag r,
       api_url := (case endpoints r of
                     None \<Rightarrow> api_url m
                   | Some e \<Rightarrow> (case map_of e ''api'' of None \<Rightarrow> api_url m | Some u \<Rightarrow> u))\<rparr>"

text \<open>
  The commit of \<open>load_token\<close> is a sequence of separate assignments to the
  manager's attributes, the last of them only when the answer names an API
  endpoint. \<open>commit_trace\<close> lists the state after each assignment; the last one
  is the committed state.
\<close>

definition commit_trace :: "api_response \<Rightarrow> manager \<Rightarrow> manager list" where
  "commit_trace r m =
     (let s1 = m\<lparr>current_token := token r\<rparr>;
          s2 = s1\<lparr>current_quota_info := quota_info_of r\<rparr>;
          s3 = s2\<lparr>telemetry_enabled := telemetry_flag r\<rparr>
      in [s1, s2, s3] @
         (case endpoints r of
            None \<Rightarrow> []
          | Some e \<Rightarrow> (case map_of e ''api'' of None \<Rightarrow> [] | Some u \<Rightarrow> [s3\<lparr>api_url := u\<rparr>])))"

text \<open>
  The getters return the attribute as it is at the moment of the call; they do
  not take \<open>token_lock\<close>.
\<close>

definition get_current_token :: "manager \<Rightarrow> string option" where
  "get_current_token m = current_token m"

definition get_quota_info :: "manager \<Rightarrow> (string \<times> int) list" where
  "get_quota_info m = current_quota_info m"

definition is_telemetry_enabled :: "manager \<Rightarrow> bool" where
  "is_telemetry_enabled m = telemetry_enabled m"

text \<open>The four places where \<open>load_token\<close> returns.\<close>

datatype load_exit = Loaded | NoTokensAvailable | NoQuotaLeft | AttemptsExceeded

text \<open>
  The \<open>for attempt in range(...)\<close> loop, by recursion over the attempts that
  are left; every \<open>continue\<close> is the recursive call on the rest.
\<close>

fun load_loop :: "environment \<Rightarrow> nat list \<Rightarrow> manager \<Rightarrow> load_exit \<times> manager" where
  "load_loop e [] m = (AttemptsExceeded, m)"
| "load_loop e (attempt # rest) m =
     (case find_next_available_token (tokens_dir m) of
        None \<Rightarrow> (NoTokensAvailable, m)
      | Some token_path \<Rightarrow>
          let m1 = m\<lparr>tokens_dir := race e attempt (promote_token_to_primary token_path (tokens_dir m))\<rparr>
          in (case map_of (tokens_dir m1) primary of
                None \<Rightarrow> load_loop e rest m1
              | Some content \<Rightarrow>
                  (case fetch e attempt (strip content) of
                     None \<Rightarrow> load_loop e rest m1
                   | Some r \<Rightarrow>
                       if chat_quota r = 0 then
                         let m2 = demote (limited_user_reset_date r) m1
                         in if get_available_token_count m2 = 0 then (NoQuotaLeft, m2)
                            else load_loop e rest m2
                       else (Loaded, commit r m1))))"

definition load_token_exit :: "environment \<Rightarrow> manager \<Rightarrow> load_exit \<times> manager" where
  "load_token_exit e m =
     load_loop e [0..<MAX_TOKEN_ROTATION_ATTEMPTS] (snd (recover_expired_tokens (now e) m))"

definition load_token :: "environment \<Rightarrow> manager \<Rightarrow> bool \<times> manager" where
  "load_token e m = (fst (load_token_exit e m) = Loaded, snd (load_token_exit e m))"


section \<open>Example stores and environments\<close>

text \<open>Concrete inputs on which the theorems below are evaluated.\<close>

definition ok_response :: api_response where
  "ok_response = \<lparr>token = Some ''tid=abc'', limited_user_quotas = Some [(''chat'', 5)],
     limited_user_reset_date = Some 1800000000, telemetry = Some ''disabled'', endpoints = None\<rparr>"

definition one_token :: manager where
  "one_token = \<lparr>tokens_dir = [(''.copilot_token'', ''ghu_A'')], quota_exhausted_dir = [],
     current_token = None, current_quota_info = [], telemetry_enabled = False,
     api_url = ''https://api.githubcopilot.com''\<rparr>"

text \<open>An environment in which no other process touches the tokens directory.\<close>

definition calm :: "(nat \<Rightarrow> string \<Rightarrow> api_response option) \<Rightarrow> environment" where
  "calm f = \<lparr>now = 1700000000, fetch = f, race = (\<lambda>i d. d)\<rparr>"

definition serve_A :: "nat \<Rightarrow> string \<Rightarrow> api_response option" where
  "serve_A i s = (if s = ''ghu_A'' then Some ok_response else None)"

definition plain_response :: api_response where
  "plain_response = \<lparr>token = Some ''tid=xyz'', limited_user_quotas = None,
     limited_user_reset_date = None, telemetry = None,
     endpoints = Some [(''api'', ''https://api.individual.githubcopilot.com'')]\<rparr>"

definition serve_plain :: "nat \<Rightarrow> string \<Rightarrow> api_response option" where
  "serve_plain i s = Some plain_response"

definition lone_primary :: manager where
  "lone_primary = \<lparr>tokens_dir = [(''QuotaExhausted'', []), (''.copilot_token'', ''ghu_A'')],
     quota_exhausted_dir = [],
     current_token = None, current_quota_info = [], telemetry_enabled = False,
     api_url = ''https://api.githubcopilot.com''\<rparr>"

definition numbered_token :: manager where
  "numbered_token = \<lparr>tokens_dir = [(''proxy_refactored.py'', ''import requests''),
       (''7.copilot_token'', '' ghu_B  ''), (''QuotaExhausted'', [])],
     quota_exhausted_dir = [(''1900000000.copilot_token'', ''ghu_C'')],
     current_token = Some ''old'', current_quota_info = [(''chat'', 3)], telemetry_enabled = True,
     api_url = ''https://api.githubcopilot.com''\<rparr>"


section \<open>Predicates on file names\<close>

text \<open>
  The reset time that \<open>_recover_expired_tokens\<close> reads from the name of an
  exhausted file, and its test for moving the file back.
\<close>

definition reset_timestamp_of :: "string \<Rightarrow> int option" where
  "reset_timestamp_of filename =
     (if endswith filename token_ext then py_int (replace_all token_ext '''' filename) else None)"

definition recoverable :: "int \<Rightarrow> string \<Rightarrow> bool" where
  "recoverable current_time filename =
     (case reset_timestamp_of filename of None \<Rightarrow> False | Some t \<Rightarrow> t < current_time)"

text \<open>
  The rank that \<open>_find_next_available_token\<close> reads from the name of a file
  of the tokens directory other than the primary one.
\<close>

definition rank_of :: "string \<Rightarrow> int option" where
  "rank_of filename =
     (if endswith filename token_ext \<and> filename \<noteq> primary
      then py_int (replace_all token_ext '''' filename) else None)"

definition due_now :: manager where
  "due_now = \<lparr>tokens_dir = [], quota_exhausted_dir = [(''1700000000.copilot_token'', ''ghu_C'')],
     current_token = None, current_quota_info = [], telemetry_enabled = False,
     api_url = ''https://api.githubcopilot.com''\<rparr>"

text \<open>A file name that starts with the separator \<open>0x1C\<close>, which \<open>int()\<close> does not skip.\<close>

definition odd_name :: string where
  "odd_name = CHR 0x1C # ''1600000001.copilot_token''"

definition parked :: manager where
  "parked = \<lparr>tokens_dir = [(''2.copilot_token'', ''ghu_B'')],
     quota_exhausted_dir = [(''1600000000.copilot_token'', ''ghu_C''), (''None.copilot_token'', ''ghu_D''),
       (''1900000000.copilot_token'', ''ghu_E''), (odd_name, ''ghu_F'')],
     current_token = Some ''old'', current_quota_info = [(''chat'', 3)], telemetry_enabled = True,
     api_url = ''https://api.githubcopilot.com''\<rparr>"

text \<open>
  An exhausted credential with an earlier reset time than the one credential of
  the pool, which was recovered before.
\<close>

definition overtaken :: manager where
  "overtaken = \<lparr>tokens_dir = [(''1650000000.copilot_token'', ''ghu_B'')],
     quota_exhausted_dir = [(''1600000000.copilot_token'', ''ghu_C'')],
     current_token = None, current_quota_info = [], telemetry_enabled = False,
     api_url = ''https://api.githubcopilot.com''\<rparr>"

text \<open>A file name with the separators \<open>0x1F\<close> and \<open>0x1C\<close> around the digit.\<close>

definition separator_name :: string where
  "separator_name = CHR 0x1F # CHR ''1'' # CHR 0x1C # ''.copilot_token''"

definition pool :: directory where
  "pool = [(''12.copilot_token'', ''ghu_L''), (''notes.txt'', ''x''), (''3.copilot_token'', ''ghu_M''),
           (''old.copilot_token'', ''ghu_N''), (''03.copilot_token'', ''ghu_O''),
           (separator_name, ''ghu_P''), (''QuotaExhausted'', [])]"

text \<open>Calls of \<open>_recover_expired_tokens\<close> one after the other, at the given times.\<close>

definition recover_repeatedly :: "int list \<Rightarrow> manager \<Rightarrow> manager" where
  "recover_repeatedly ts m = fold (\<lambda>t M. snd (recover_expired_tokens t M)) ts m"

definition exhausted_response :: api_response where
  "exhausted_response = \<lparr>token = Some ''tid=000'', limited_user_quotas = Some [(''chat'', 0)],
     limited_user_reset_date = Some 1800000000, telemetry = None, endpoints = None\<rparr>"

definition serve_exhausted :: "nat \<Rightarrow> string \<Rightarrow> api_response option" where
  "serve_exhausted i s = Some exhausted_response"

definition two_tokens :: manager where
  "two_tokens = \<lparr>tokens_dir = [(''.copilot_token'', ''ghu_A''), (''1.copilot_token'', ''ghu_B'')],
     quota_exhausted_dir = [],
     current_token = Some ''old'', current_quota_info = [(''chat'', 3)], telemetry_enabled = False,
     api_url = ''https://api.githubcopilot.com''\<rparr>"

text \<open>One hundred and one numbered credentials.\<close>

definition many_tokens :: manager where
  "many_tokens = \<lparr>tokens_dir = map (\<lambda>i. (str_int (int i) @ token_ext, ''ghu_X'')) [1..<102],
     quota_exhausted_dir = [],
     current_token = Some ''old'', current_quota_info = [(''chat'', 3)], telemetry_enabled = False,
     api_url = ''https://api.githubcopilot.com''\<rparr>"

text \<open>
  An environment in which, at every attempt, another process renames the primary
  file to \<open>1.copilot_token\<close> before it is opened, as the backup step of
  \<open>authenticate_new_account\<close> does when there is no numbered file.
\<close>

definition racing :: environment where
  "racing = \<lparr>now = 1700000000, fetch = serve_A,
              race = (\<lambda>i d. rename_within primary ''1.copilot_token'' d)\<rparr>"

definition backed_up :: manager where
  "backed_up = one_token\<lparr>tokens_dir := [(''1.copilot_token'', ''ghu_A'')]\<rparr>"

text \<open>
  A tokens directory as the spec describes it: distinct file names, and every
  token file is the primary file or a numbered one.
\<close>

definition well_named :: "directory \<Rightarrow> bool" where
  "well_named d =
     (distinct (listdir d) \<and>
      list_all (\<lambda>f. \<not> endswith f token_ext \<or> f = primary \<or> rank_of f \<noteq> None) (listdir d))"

section \<open>Facts about the rotation loop\<close>

text \<open>
  A successful exit is the commit of the answer that one of the attempts got for
  the contents of the primary file it read.
\<close>

lemma load_loop_Loaded:
  "load_loop e as m = (Loaded, m') \<Longrightarrow>
   \<exists>attempt m1 content r. attempt \<in> set as \<and> map_of (tokens_dir m1) primary = Some content \<and>
      fetch e attempt (strip content) = Some r \<and> chat_quota r \<noteq> 0 \<and> m' = commit r m1"
proof (induction as arbitrary: m)
  case Nil
  then show ?case by simp
next
  case (Cons a as)
  show ?case
  proof (cases "find_next_available_token (tokens_dir m)")
    case None
    with Cons.prems show ?thesis by simp
  next
    case (Some p)
    define m1 where "m1 = m\<lparr>tokens_dir := race e a (promote_token_to_primary p (tokens_dir m))\<rparr>"
    show ?thesis
    proof (cases "map_of (tokens_dir m1) primary")
      case None
      with Cons.prems Some have "load_loop e as m1 = (Loaded, m')"
        by (simp add: m1_def Let_def)
      from Cons.IH[OF this] show ?thesis by auto
    next
      case c: (Some content)
      show ?thesis
      proof (cases "fetch e a (strip content)")
        case None
        with Cons.prems Some c have "load_loop e as m1 = (Loaded, m')"
          by (simp add: m1_def Let_def)
        from Cons.IH[OF this] show ?thesis by auto
      next
        case r: (Some r)
        show ?thesis
        proof (cases "chat_quota r = 0")
          case True
          with Cons.prems Some c r
          have "load_loop e as (demote (limited_user_reset_date r) m1) = (Loaded, m')"
            by (simp add: m1_def Let_def split: if_splits)
          from Cons.IH[OF this] show ?thesis by auto
        next
          case False
          with Cons.prems Some c r have "m' = commit r m1"
            by (simp add: m1_def Let_def)
          with c r False show ?thesis
            by (intro exI[of _ a] exI[of _ m1] exI[of _ content] exI[of _ r]) simp
        qed
      qed
    qed
  qed
qed


section \<open>C8: the committed telemetry flag\<close>

text \<open>
  Claim C8. When \<open>load_token\<close> succeeds, the state it returns is the commit of
  the answer \<open>r\<close> that the successful attempt got for the contents of the
  primary file, the file that is still the primary file afterwards; the committed
  \<open>telemetry_enabled\<close> is true exactly when the \<open>telemetry\<close> field of \<open>r\<close> is
  absent or is anything but the string \<open>disabled\<close>.
\<close>

theorem telemetry_committed:
  assumes "load_token e m = (True, m')"
  shows "\<exists>attempt m1 content r. attempt < MAX_TOKEN_ROTATION_ATTEMPTS \<and>
           map_of (tokens_dir m1) primary = Some content \<and>
           map_of (tokens_dir m') primary = Some content \<and>
           fetch e attempt (strip content) = Some r \<and> chat_quota r \<noteq> 0 \<and>
           m' = commit r m1 \<and>
           (telemetry_enabled m' \<longleftrightarrow> (telemetry r = None \<or> telemetry r \<noteq> Some ''disabled''))"
proof -
  from assms have "load_loop e [0..<MAX_TOKEN_ROTATION_ATTEMPTS]
      (snd (recover_expired_tokens (now e) m)) = (Loaded, m')"
    by (simp add: load_token_def load_token_exit_def prod_eq_iff)
  from load_loop_Loaded[OF this] obtain a m1 c r where
    h: "a \<in> set [0..<MAX_TOKEN_ROTATION_ATTEMPTS]" "map_of (tokens_dir m1) primary = Some c"
       "fetch e a (strip c) = Some r" "chat_quota r \<noteq> 0" "m' = commit r m1"
    by blast
  have t: "tokens_dir m' = tokens_dir m1" "telemetry_enabled m' = telemetry_flag r"
    using h(5) by (simp_all add: commit_def)
  show ?thesis
    using h t
    by (intro exI[of _ a] exI[of _ m1] exI[of _ c] exI[of _ r]) (auto simp: telemetry_flag_def)
qed

lemma lone_primary_plain:
  "load_token (calm serve_plain) lone_primary = (True, commit plain_response lone_primary)"
  by (simp add: upt_rec load_token_def load_token_exit_def MAX_TOKEN_ROTATION_ATTEMPTS_def calm_def
      lone_primary_def serve_plain_def recover_expired_tokens_def listdir_def
      find_next_available_token_def exists_def primary_def promote_token_to_primary_def strip_def
      is_space_def plain_response_def chat_quota_def quota_info_of_def)

theorem telemetry_committed_witness:
  "load_token (calm serve_plain) lone_primary = (True, commit plain_response lone_primary) \<and>
   \<not> telemetry_enabled lone_primary \<and>
   telemetry_enabled (commit plain_response lone_primary) \<and>
   (\<exists>attempt m1 content r. attempt < MAX_TOKEN_ROTATION_ATTEMPTS \<and>
      map_of (tokens_dir m1) primary = Some content \<and>
      map_of (tokens_dir (commit plain_response lone_primary)) primary = Some content \<and>
      fetch (calm serve_plain) attempt (strip content) = Some r \<and> chat_quota r \<noteq> 0 \<and>
      commit plain_response lone_primary = commit r m1 \<and>
      (telemetry_enabled (commit plain_response lone_primary)
         \<longleftrightarrow> (telemetry r = None \<or> telemetry r \<noteq> Some ''disabled'')))"
proof -
  have a: "\<not> telemetry_enabled lone_primary" by (simp add: lone_primary_def)
  have b: "telemetry_enabled (commit plain_response lone_primary)"
    by (simp add: commit_def telemetry_flag_def plain_response_def)
  from telemetry_committed[OF lone_primary_plain] lone_primary_plain a b show ?thesis by blast
qed


section \<open>Facts about a recovery with nothing due\<close>

lemma recover_step_skip:
  "\<not> recoverable t f \<Longrightarrow> recover_step t f acc = acc"
  by (auto simp: recover_step_def recoverable_def reset_timestamp_of_def split: option.splits)

lemma fold_recover_skip:
  "\<forall>f \<in> set fs. \<not> recoverable t f \<Longrightarrow> fold (recover_step t) fs acc = acc"
  by (induction fs arbitrary: acc) (simp_all add: recover_step_skip)

lemma recover_nothing_due:
  "\<forall>f \<in> set (listdir (quota_exhausted_dir m)). \<not> recoverable t f \<Longrightarrow>
   recover_expired_tokens t m = (0, m)"
  by (simp add: recover_expired_tokens_def fold_recover_skip)

lemma attempts_Cons:
  "[0..<MAX_TOKEN_ROTATION_ATTEMPTS] = 0 # [1..<MAX_TOKEN_ROTATION_ATTEMPTS]"
  by (simp add: MAX_TOKEN_ROTATION_ATTEMPTS_def upt_conv_Cons)


section \<open>Facts about recovery\<close>

lemma recover_step_cases:
  "recover_step t f (k, M) =
     (if recoverable t f then
        (case map_of (quota_exhausted_dir M) f of
           None \<Rightarrow> (k, M)
         | Some c \<Rightarrow> (k + 1, M\<lparr>quota_exhausted_dir := AList.delete f (quota_exhausted_dir M),
                               tokens_dir := AList.update f c (tokens_dir M)\<rparr>))
      else (k, M))"
  by (auto simp: recover_step_def recoverable_def reset_timestamp_of_def split: option.splits)

lemma recover_step_exhausted:
  "map_of (quota_exhausted_dir (snd (recover_step t f acc))) g
     = (if g = f \<and> recoverable t f then None else map_of (quota_exhausted_dir (snd acc)) g)"
  by (cases acc) (auto simp: recover_step_cases AList.delete_conv' split: option.splits)

lemma recover_step_tokens:
  "map_of (tokens_dir (snd (recover_step t f acc))) g
     = (if g = f \<and> recoverable t f \<and> map_of (quota_exhausted_dir (snd acc)) f \<noteq> None
        then map_of (quota_exhausted_dir (snd acc)) f else map_of (tokens_dir (snd acc)) g)"
  by (cases acc) (auto simp: recover_step_cases AList.update_conv' split: option.splits)

lemma recover_step_count:
  "fst (recover_step t f acc)
     = fst acc + (if recoverable t f \<and> map_of (quota_exhausted_dir (snd acc)) f \<noteq> None then 1 else 0)"
  by (cases acc) (auto simp: recover_step_cases split: option.splits)

lemma recover_step_session:
  "current_token (snd (recover_step t f acc)) = current_token (snd acc) \<and>
   current_quota_info (snd (recover_step t f acc)) = current_quota_info (snd acc) \<and>
   telemetry_enabled (snd (recover_step t f acc)) = telemetry_enabled (snd acc) \<and>
   api_url (snd (recover_step t f acc)) = api_url (snd acc)"
  by (cases acc) (auto simp: recover_step_cases split: option.splits)

lemma fold_recover_exhausted:
  "map_of (quota_exhausted_dir (snd (fold (recover_step t) fs acc))) g
     = (if g \<in> set fs \<and> recoverable t g then None else map_of (quota_exhausted_dir (snd acc)) g)"
  by (induction fs arbitrary: acc) (auto simp: recover_step_exhausted)

lemma fold_recover_tokens:
  "map_of (tokens_dir (snd (fold (recover_step t) fs acc))) g
     = (if g \<in> set fs \<and> recoverable t g \<and> map_of (quota_exhausted_dir (snd acc)) g \<noteq> None
        then map_of (quota_exhausted_dir (snd acc)) g else map_of (tokens_dir (snd acc)) g)"
proof (induction fs arbitrary: acc)
  case Nil
  show ?case by simp
next
  case (Cons f fs)
  show ?case
    by (auto simp: Cons.IH recover_step_exhausted recover_step_tokens)
qed

lemma fold_recover_count:
  "distinct fs \<Longrightarrow>
   fst (fold (recover_step t) fs acc)
     = fst acc + length (filter (\<lambda>f. recoverable t f \<and> map_of (quota_exhausted_dir (snd acc)) f \<noteq> None) fs)"
proof (induction fs arbitrary: acc)
  case Nil
  show ?case by simp
next
  case (Cons f fs)
  then have d: "distinct fs" and nf: "f \<notin> set fs" by simp_all
  have cnt: "filter (\<lambda>h. recoverable t h \<and> map_of (quota_exhausted_dir (snd (recover_step t f acc))) h \<noteq> None) fs
           = filter (\<lambda>h. recoverable t h \<and> map_of (quota_exhausted_dir (snd acc)) h \<noteq> None) fs"
    using nf by (intro filter_cong refl) (auto simp: recover_step_exhausted)
  show ?case
    using Cons.IH[OF d, of "recover_step t f acc"] cnt
    by (simp add: recover_step_count)
qed

lemma fold_recover_session:
  "current_token (snd (fold (recover_step t) fs acc)) = current_token (snd acc) \<and>
   current_quota_info (snd (fold (recover_step t) fs acc)) = current_quota_info (snd acc) \<and>
   telemetry_enabled (snd (fold (recover_step t) fs acc)) = telemetry_enabled (snd acc) \<and>
   api_url (snd (fold (recover_step t) fs acc)) = api_url (snd acc)"
  by (induction fs arbitrary: acc) (simp_all add: recover_step_session)

lemma map_of_listdir: "map_of d g = None \<longleftrightarrow> g \<notin> set (listdir d)"
  by (simp add: listdir_def map_of_eq_None_iff)

lemma map_of_listdir_Some: "(\<exists>c. map_of d g = Some c) \<longleftrightarrow> g \<in> set (listdir d)"
  using map_of_listdir[of d g] by auto

lemma recoverable_rank: "recoverable t f \<Longrightarrow> rank_of f = reset_timestamp_of f"
  by (auto simp: recoverable_def rank_of_def reset_timestamp_of_def primary_def token_ext_def
      py_int_def strip_c_space_def is_c_space_def strip_def split: option.splits if_splits)

section \<open>C3: which exhausted credentials are recovered\<close>

text \<open>
  Claim C3, amended. \<open>recoverable t f\<close> says that \<open>f\<close> ends with
  \<open>.copilot_token\<close>, that the rest of the name is an integer for \<open>int()\<close>,
  and that this integer is strictly below the current time \<open>t\<close>. For a
  directory of exhausted files with distinct names, \<open>_recover_expired_tokens\<close>
  returns the number of recoverable names; afterwards the exhausted directory
  holds exactly the files that are not recoverable (those with a later or equal
  reset time and those whose name is no time stamp), each recoverable file is in
  the tokens directory under its old name with its old contents, where its reset
  time is its rank, every other file of the tokens directory is as before, and
  the session is untouched.
\<close>

theorem recover_moves_exactly_overdue:
  assumes "distinct (listdir (quota_exhausted_dir m))"
  shows "fst (recover_expired_tokens t m) = length (filter (recoverable t) (listdir (quota_exhausted_dir m))) \<and>
         (\<forall>g. map_of (quota_exhausted_dir (snd (recover_expired_tokens t m))) g
           = (if recoverable t g then None else map_of (quota_exhausted_dir m) g)) \<and>
         (\<forall>g. map_of (tokens_dir (snd (recover_expired_tokens t m))) g
           = (if recoverable t g \<and> g \<in> set (listdir (quota_exhausted_dir m))
              then map_of (quota_exhausted_dir m) g else map_of (tokens_dir m) g)) \<and>
         (\<forall>g. recoverable t g \<longrightarrow> rank_of g = reset_timestamp_of g) \<and>
         current_token (snd (recover_expired_tokens t m)) = current_token m \<and>
         current_quota_info (snd (recover_expired_tokens t m)) = current_quota_info m \<and>
         telemetry_enabled (snd (recover_expired_tokens t m)) = telemetry_enabled m \<and>
         api_url (snd (recover_expired_tokens t m)) = api_url m"
proof -
  have cnt: "filter (\<lambda>f. recoverable t f \<and> map_of (quota_exhausted_dir m) f \<noteq> None)
               (listdir (quota_exhausted_dir m))
           = filter (recoverable t) (listdir (quota_exhausted_dir m))"
    by (intro filter_cong refl) (auto simp: map_of_listdir)
  have a: "fst (recover_expired_tokens t m)
      = length (filter (recoverable t) (listdir (quota_exhausted_dir m)))"
    using fold_recover_count[OF assms, of t "(0, m)"] cnt
    by (simp add: recover_expired_tokens_def)
  have b: "\<forall>g. map_of (quota_exhausted_dir (snd (recover_expired_tokens t m))) g
           = (if recoverable t g then None else map_of (quota_exhausted_dir m) g)"
    by (auto simp: recover_expired_tokens_def fold_recover_exhausted map_of_listdir)
  have c: "\<forall>g. map_of (tokens_dir (snd (recover_expired_tokens t m))) g
           = (if recoverable t g \<and> g \<in> set (listdir (quota_exhausted_dir m))
              then map_of (quota_exhausted_dir m) g else map_of (tokens_dir m) g)"
    by (auto simp: recover_expired_tokens_def fold_recover_tokens map_of_listdir map_of_listdir_Some)
  have d: "current_token (snd (recover_expired_tokens t m)) = current_token m \<and>
         current_quota_info (snd (recover_expired_tokens t m)) = current_quota_info m \<and>
         telemetry_enabled (snd (recover_expired_tokens t m)) = telemetry_enabled m \<and>
         api_url (snd (recover_expired_tokens t m)) = api_url m"
    using fold_recover_session[of t "listdir (quota_exhausted_dir m)" "(0, m)"]
    by (simp add: recover_expired_tokens_def)
  show ?thesis
    using a b c d recoverable_rank by blast
qed

lemma ts_1700: "reset_timestamp_of ''1700000000.copilot_token'' = Some 1700000000"
  by (simp add: reset_timestamp_of_def endswith_def token_ext_def py_int_def strip_c_space_def is_c_space_def
      strip_def is_space_def is_digit_def digit_val_def)

lemma overtaken_recovered:
  "recover_expired_tokens 1700000000 overtaken
     = (1, overtaken\<lparr>quota_exhausted_dir := [],
                       tokens_dir := [(''1650000000.copilot_token'', ''ghu_B''),
                                      (''1600000000.copilot_token'', ''ghu_C'')]\<rparr>)"
  by (simp add: recover_expired_tokens_def recover_step_def overtaken_def listdir_def endswith_def
      token_ext_def py_int_def strip_c_space_def is_c_space_def is_digit_def digit_val_def)

lemma overtaken_next:
  "find_next_available_token [(''1650000000.copilot_token'', ''ghu_B''),
      (''1600000000.copilot_token'', ''ghu_C'')] = Some ''1600000000.copilot_token''"
  by (simp add: find_next_available_token_def exists_def listdir_def numbered_tokens_def primary_def
      endswith_def token_ext_def py_int_def strip_c_space_def is_c_space_def is_digit_def digit_val_def)

text \<open>
  Claim C3 as stated asks for the recovery of every file whose reset time is at
  or before the current time, and for the recovered files to come last in the
  ranking of the pool. A file whose reset time equals the current time stays
  exhausted. A recovered file keeps its name, so its reset time is its rank: with
  the credential \<open>1650000000.copilot_token\<close> in the pool, the credential
  recovered from \<open>1600000000.copilot_token\<close> is the next candidate, ahead of the
  one that was there.
\<close>

theorem recover_at_reset_time_counterexample:
  "reset_timestamp_of ''1700000000.copilot_token'' = Some 1700000000 \<and>
   map_of (quota_exhausted_dir due_now) ''1700000000.copilot_token'' = Some ''ghu_C'' \<and>
   recover_expired_tokens 1700000000 due_now = (0, due_now) \<and>
   find_next_available_token (tokens_dir overtaken) = Some ''1650000000.copilot_token'' \<and>
   fst (recover_expired_tokens 1700000000 overtaken) = 1 \<and>
   find_next_available_token (tokens_dir (snd (recover_expired_tokens 1700000000 overtaken)))
     = Some ''1600000000.copilot_token''"
proof -
  have a: "recover_expired_tokens 1700000000 due_now = (0, due_now)"
    by (simp add: ts_1700 recover_expired_tokens_def recover_step_cases recoverable_def due_now_def
        listdir_def)
  have b: "map_of (quota_exhausted_dir due_now) ''1700000000.copilot_token'' = Some ''ghu_C''"
    by (simp add: due_now_def)
  have c: "find_next_available_token (tokens_dir overtaken) = Some ''1650000000.copilot_token''"
    by (simp add: overtaken_def find_next_available_token_def exists_def listdir_def
        numbered_tokens_def primary_def endswith_def token_ext_def py_int_def strip_c_space_def
        is_c_space_def is_digit_def digit_val_def)
  show ?thesis
    using a b c ts_1700 by (simp add: overtaken_recovered overtaken_next)
qed

lemma parked_names:
  "recoverable 1700000000 ''1600000000.copilot_token''"
  "\<not> recoverable 1700000000 ''None.copilot_token''"
  "\<not> recoverable 1700000000 ''1900000000.copilot_token''"
  "\<not> recoverable 1700000000 odd_name"
  "reset_timestamp_of ''1600000000.copilot_token'' = Some 1600000000"
  "reset_timestamp_of odd_name = None"
  by (simp_all add: recoverable_def reset_timestamp_of_def endswith_def token_ext_def py_int_def
      strip_c_space_def is_c_space_def is_digit_def digit_val_def odd_name_def)

theorem recover_moves_exactly_overdue_witness:
  "distinct (listdir (quota_exhausted_dir parked)) \<and>
   fst (recover_expired_tokens 1700000000 parked) = 1 \<and>
   map_of (quota_exhausted_dir (snd (recover_expired_tokens 1700000000 parked))) ''1600000000.copilot_token'' = None \<and>
   map_of (tokens_dir (snd (recover_expired_tokens 1700000000 parked))) ''1600000000.copilot_token'' = Some ''ghu_C'' \<and>
   rank_of ''1600000000.copilot_token'' = Some 1600000000 \<and>
   map_of (quota_exhausted_dir (snd (recover_expired_tokens 1700000000 parked))) ''None.copilot_token'' = Some ''ghu_D'' \<and>
   map_of (quota_exhausted_dir (snd (recover_expired_tokens 1700000000 parked))) ''1900000000.copilot_token'' = Some ''ghu_E'' \<and>
   map_of (quota_exhausted_dir (snd (recover_expired_tokens 1700000000 parked))) odd_name = Some ''ghu_F'' \<and>
   map_of (tokens_dir (snd (recover_expired_tokens 1700000000 parked))) odd_name = None \<and>
   map_of (tokens_dir (snd (recover_expired_tokens 1700000000 parked))) ''2.copilot_token'' = Some ''ghu_B'' \<and>
   current_token (snd (recover_expired_tokens 1700000000 parked)) = Some ''old''"
proof -
  have n: "''1600000000.copilot_token'' \<noteq> odd_name" "''None.copilot_token'' \<noteq> odd_name"
    "''1900000000.copilot_token'' \<noteq> odd_name" "''2.copilot_token'' \<noteq> odd_name"
    by (simp_all add: odd_name_def)
  have d: "distinct (listdir (quota_exhausted_dir parked))"
    by (simp add: parked_def listdir_def n)
  from recover_moves_exactly_overdue[OF d, of 1700000000] show ?thesis
    using parked_names d n by (simp add: parked_def listdir_def)
qed


section \<open>Facts about candidate selection\<close>

lemma numbered_tokens_mem:
  "(num, f) \<in> set (numbered_tokens d) \<longleftrightarrow> f \<in> set (listdir d) \<and> rank_of f = Some num"
  by (auto simp: numbered_tokens_def rank_of_def split: option.splits if_splits)

lemma sort_head_least:
  assumes "sort xs = t # ts"
  shows "t \<in> set xs \<and> (\<forall>u \<in> set xs. t \<le> u)"
proof -
  have "set (sort xs) = set xs" by simp
  with assms have s: "set xs = insert t (set ts)" by simp
  have "sorted (sort xs)" by simp
  with assms have "\<forall>u \<in> set ts. t \<le> u" by simp
  with s show ?thesis by auto
qed

lemma find_next_primary:
  "exists d primary \<Longrightarrow> find_next_available_token d = Some primary"
  by (simp add: find_next_available_token_def)

lemma find_next_numbered:
  assumes "\<not> exists d primary" and "find_next_available_token d = Some f"
  shows "f \<in> set (listdir d) \<and>
         (\<exists>r. rank_of f = Some r \<and> (\<forall>g \<in> set (listdir d). \<forall>r'. rank_of g = Some r' \<longrightarrow> r \<le> r'))"
proof -
  from assms obtain t ts where st: "sort (numbered_tokens d) = t # ts" and f: "f = snd t"
    by (auto simp: find_next_available_token_def split: list.splits)
  from sort_head_least[OF st] have mem: "t \<in> set (numbered_tokens d)"
    and least: "\<forall>u \<in> set (numbered_tokens d). t \<le> u" by simp_all
  from mem f have a: "f \<in> set (listdir d)" and b: "rank_of f = Some (fst t)"
    using numbered_tokens_mem[of "fst t" "snd t" d] by simp_all
  have "\<forall>g \<in> set (listdir d). \<forall>r'. rank_of g = Some r' \<longrightarrow> fst t \<le> r'"
  proof (intro ballI allI impI)
    fix g r' assume "g \<in> set (listdir d)" "rank_of g = Some r'"
    then have "(r', g) \<in> set (numbered_tokens d)" by (simp add: numbered_tokens_mem)
    with least have "t \<le> (r', g)" by blast
    then show "fst t \<le> r'" by (auto simp: less_eq_prod_def)
  qed
  with a b show ?thesis by blast
qed

lemma find_next_None:
  assumes "\<not> exists d primary"
  shows "find_next_available_token d = None \<longleftrightarrow> (\<forall>g \<in> set (listdir d). rank_of g = None)"
proof
  assume "find_next_available_token d = None"
  with assms have "sort (numbered_tokens d) = []"
    by (auto simp: find_next_available_token_def split: list.splits)
  then have "set (sort (numbered_tokens d)) = {}" by simp
  then have e: "set (numbered_tokens d) = {}" by simp
  show "\<forall>g \<in> set (listdir d). rank_of g = None"
  proof
    fix g assume g: "g \<in> set (listdir d)"
    show "rank_of g = None"
    proof (cases "rank_of g")
      case (Some r)
      with g have "(r, g) \<in> set (numbered_tokens d)" by (simp add: numbered_tokens_mem)
      with e show ?thesis by simp
    qed simp
  qed
next
  assume "\<forall>g \<in> set (listdir d). rank_of g = None"
  then have "numbered_tokens d = []"
  proof (cases "numbered_tokens d")
    case (Cons p ps)
    then have "(fst p, snd p) \<in> set (numbered_tokens d)" by simp
    then have "snd p \<in> set (listdir d)" "rank_of (snd p) = Some (fst p)"
      using numbered_tokens_mem[of "fst p" "snd p" d] by simp_all
    with \<open>\<forall>g \<in> set (listdir d). rank_of g = None\<close> show ?thesis by auto
  qed simp
  with assms show "find_next_available_token d = None"
    by (simp add: find_next_available_token_def)
qed

lemma promote_primary_slot:
  assumes "exists d x"
  shows "exists (promote_token_to_primary x d) primary \<and>
         map_of (promote_token_to_primary x d) primary = map_of d x"
proof -
  from assms obtain c where c: "map_of d x = Some c"
    using map_of_listdir_Some[of d x] by (auto simp: exists_def)
  show ?thesis
  proof (cases "x = primary")
    case True
    with assms show ?thesis by (simp add: promote_token_to_primary_def)
  next
    case False
    then show ?thesis
      using c by (simp add: promote_token_to_primary_def rename_within_def exists_def listdir_def
          AList.update_conv' AList.dom_update)
  qed
qed

section \<open>C5: the next candidate and promotion\<close>

text \<open>
  Claim C5. \<open>_find_next_available_token\<close> is a function of the tokens
  directory alone and returns no new directory, so it changes nothing. When the
  primary file exists it returns the primary file. Otherwise a file it returns
  is a file of the directory with a numeric rank, and no ranked file of the
  directory has a lower rank; it returns nothing exactly when no file of the
  directory has a rank. After \<open>_promote_token_to_primary\<close> of an existing
  file \<open>x\<close> the next candidate is the primary file, which holds what \<open>x\<close>
  held; promoting the primary file changes nothing.
\<close>

theorem next_candidate_and_promotion:
  "(exists d primary \<longrightarrow> find_next_available_token d = Some primary) \<and>
   (\<not> exists d primary \<longrightarrow>
      (\<forall>f. find_next_available_token d = Some f \<longrightarrow>
         f \<in> set (listdir d) \<and>
         (\<exists>r. rank_of f = Some r \<and> (\<forall>g \<in> set (listdir d). \<forall>r'. rank_of g = Some r' \<longrightarrow> r \<le> r'))) \<and>
      (find_next_available_token d = None \<longleftrightarrow> (\<forall>g \<in> set (listdir d). rank_of g = None))) \<and>
   (exists d x \<longrightarrow>
      find_next_available_token (promote_token_to_primary x d) = Some primary \<and>
      map_of (promote_token_to_primary x d) primary = map_of d x) \<and>
   promote_token_to_primary primary d = d"
proof (intro conjI impI allI)
  assume "exists d primary"
  then show "find_next_available_token d = Some primary" by (rule find_next_primary)
next
  fix f assume "\<not> exists d primary" "find_next_available_token d = Some f"
  from find_next_numbered[OF this]
  show "f \<in> set (listdir d)"
    and "\<exists>r. rank_of f = Some r \<and> (\<forall>g \<in> set (listdir d). \<forall>r'. rank_of g = Some r' \<longrightarrow> r \<le> r')"
    by blast+
next
  assume "\<not> exists d primary"
  then show "find_next_available_token d = None \<longleftrightarrow> (\<forall>g \<in> set (listdir d). rank_of g = None)"
    by (rule find_next_None)
next
  assume x: "exists d x"
  from promote_primary_slot[OF x]
  show "find_next_available_token (promote_token_to_primary x d) = Some primary"
    by (simp add: find_next_primary)
  from promote_primary_slot[OF x]
  show "map_of (promote_token_to_primary x d) primary = map_of d x" by simp
next
  show "promote_token_to_primary primary d = d" by (simp add: promote_token_to_primary_def)
qed

lemma pool_ranks:
  "rank_of ''12.copilot_token'' = Some 12" "rank_of ''notes.txt'' = None"
  "rank_of ''3.copilot_token'' = Some 3" "rank_of ''old.copilot_token'' = None"
  "rank_of ''03.copilot_token'' = Some 3" "rank_of separator_name = None"
  "rank_of ''QuotaExhausted'' = None"
  by (simp_all add: rank_of_def endswith_def token_ext_def primary_def py_int_def
      strip_c_space_def is_c_space_def is_digit_def digit_val_def separator_name_def)

lemma pool_next: "find_next_available_token pool = Some ''03.copilot_token''"
  by (simp add: find_next_available_token_def exists_def listdir_def pool_def numbered_tokens_def
      primary_def endswith_def token_ext_def py_int_def strip_c_space_def is_c_space_def
      is_digit_def digit_val_def separator_name_def)

theorem next_candidate_and_promotion_witness:
  "\<not> exists pool primary \<and> exists pool ''12.copilot_token'' \<and>
   find_next_available_token pool = Some ''03.copilot_token'' \<and>
   rank_of ''03.copilot_token'' = Some 3 \<and> rank_of separator_name = None \<and>
   exists (promote_token_to_primary ''12.copilot_token'' pool) primary \<and>
   find_next_available_token (promote_token_to_primary ''12.copilot_token'' pool) = Some primary \<and>
   map_of (promote_token_to_primary ''12.copilot_token'' pool) primary = Some ''ghu_L'' \<and>
   promote_token_to_primary primary (promote_token_to_primary ''12.copilot_token'' pool)
     = promote_token_to_primary ''12.copilot_token'' pool"
proof -
  have a: "\<not> exists pool primary" "exists pool ''12.copilot_token''"
    by (simp_all add: exists_def listdir_def pool_def primary_def separator_name_def)
  have b: "map_of pool ''12.copilot_token'' = Some ''ghu_L''"
    by (simp add: pool_def)
  have c: "exists (promote_token_to_primary ''12.copilot_token'' pool) primary"
    by (simp add: promote_token_to_primary_def rename_within_def exists_def listdir_def pool_def primary_def)
  from next_candidate_and_promotion[of pool "''12.copilot_token''"]
       next_candidate_and_promotion[of "promote_token_to_primary ''12.copilot_token'' pool" primary]
  show ?thesis
    using a b c pool_next pool_ranks by simp
qed


section \<open>Facts about a tokens directory with one token file\<close>

lemma concat_map_filter_empty:
  "(\<And>x. \<not> P x \<Longrightarrow> g x = []) \<Longrightarrow> concat (map g (filter P xs)) = concat (map g xs)"
  by (induction xs) simp_all

lemma numbered_tokens_of_token_files:
  "numbered_tokens d
     = concat (map (\<lambda>filename.
         if endswith filename token_ext \<and> filename \<noteq> primary then
           (case py_int (replace_all token_ext '''' filename) of
              None \<Rightarrow> []
            | Some num \<Rightarrow> [(num, filename)])
         else []) (filter (\<lambda>f. endswith f token_ext) (listdir d)))"
  unfolding numbered_tokens_def
  by (rule concat_map_filter_empty[symmetric]) simp

lemma find_next_single:
  assumes one: "filter (\<lambda>f. endswith f token_ext) (listdir d) = [name]"
    and name: "name = primary \<or> rank_of name \<noteq> None"
  shows "find_next_available_token d = Some name"
proof (cases "name = primary")
  case True
  have "name \<in> set (filter (\<lambda>f. endswith f token_ext) (listdir d))" by (simp add: one)
  then have "name \<in> set (listdir d)" by simp
  with True show ?thesis by (simp add: find_next_available_token_def exists_def)
next
  case False
  with name obtain r where r: "rank_of name = Some r" by auto
  have np: "\<not> exists d primary"
  proof
    assume "exists d primary"
    then have "primary \<in> set (filter (\<lambda>f. endswith f token_ext) (listdir d))"
      by (simp add: exists_def endswith_def primary_def token_ext_def)
    with one False show False by simp
  qed
  from r have "numbered_tokens d = [(r, name)]"
    by (simp add: numbered_tokens_of_token_files one rank_of_def split: if_splits)
  with np show ?thesis by (simp add: find_next_available_token_def)
qed


section \<open>C1: one credential with quota left\<close>

text \<open>
  Claim C1. The tokens directory holds exactly one token file (the primary file
  or a numbered one) beside entries of other names, no exhausted file is due, no
  other process interferes, and the exchange of the file's secret answers \<open>r\<close>
  whose quota object has no \<open>chat\<close> entry (the default 1 applies) or a
  \<open>chat\<close> entry other than 0, for example \<open>{"chat": 5}\<close>. Then
  \<open>load_token\<close> returns \<open>True\<close>, the credential sits in the primary slot, the
  session is the one committed from \<open>r\<close>, and its quota snapshot is the quota
  object of \<open>r\<close>.
\<close>

theorem load_token_single_credential:
  assumes one: "filter (\<lambda>f. endswith f token_ext) (listdir (tokens_dir m)) = [name]"
    and name: "name = primary \<or> rank_of name \<noteq> None"
    and secret: "map_of (tokens_dir m) name = Some secret"
    and due: "\<forall>f \<in> set (listdir (quota_exhausted_dir m)). \<not> recoverable (now e) f"
    and calm: "race e 0 (promote_token_to_primary name (tokens_dir m))
                 = promote_token_to_primary name (tokens_dir m)"
    and answer: "fetch e 0 (strip secret) = Some r"
    and quota: "map_of (quota_info_of r) ''chat'' \<noteq> Some 0"
  shows "load_token e m
           = (True, commit r (m\<lparr>tokens_dir := promote_token_to_primary name (tokens_dir m)\<rparr>)) \<and>
         map_of (tokens_dir (snd (load_token e m))) primary = Some secret \<and>
         current_quota_info (snd (load_token e m)) = quota_info_of r \<and>
         map_of (current_quota_info (snd (load_token e m))) ''chat'' = map_of (quota_info_of r) ''chat''"
proof -
  let ?d1 = "promote_token_to_primary name (tokens_dir m)"
  have q: "chat_quota r \<noteq> 0"
    using quota by (auto simp: chat_quota_def split: option.splits)
  have ex: "exists (tokens_dir m) name"
    using secret map_of_listdir_Some[of "tokens_dir m" name] by (auto simp: exists_def)
  from promote_primary_slot[OF ex] secret have p: "map_of ?d1 primary = Some secret" by simp
  have "load_token_exit e m = load_loop e (0 # [1..<MAX_TOKEN_ROTATION_ATTEMPTS]) m"
    by (simp add: load_token_exit_def recover_nothing_due[OF due] attempts_Cons)
  also have "\<dots> = (Loaded, commit r (m\<lparr>tokens_dir := ?d1\<rparr>))"
    using find_next_single[OF one name] calm p answer q
    by (simp add: Let_def)
  finally have "load_token_exit e m = (Loaded, commit r (m\<lparr>tokens_dir := ?d1\<rparr>))" .
  then show ?thesis
    using p by (simp add: load_token_def commit_def)
qed

lemma names_not_due:
  "\<not> recoverable 1700000000 ''1900000000.copilot_token''"
  by (simp add: recoverable_def reset_timestamp_of_def endswith_def token_ext_def py_int_def
      strip_c_space_def is_c_space_def is_digit_def digit_val_def)

lemma example_token_files:
  "filter (\<lambda>f. endswith f token_ext) (listdir (tokens_dir lone_primary)) = [primary]"
  "filter (\<lambda>f. endswith f token_ext) (listdir (tokens_dir numbered_token)) = [''7.copilot_token'']"
  "rank_of ''7.copilot_token'' = Some 7"
  by (simp_all add: lone_primary_def numbered_token_def listdir_def endswith_def token_ext_def
      primary_def rank_of_def py_int_def strip_c_space_def is_c_space_def is_digit_def digit_val_def)

theorem load_token_single_credential_witness:
  "load_token (calm serve_A) lone_primary = (True, commit ok_response lone_primary) \<and>
   map_of (current_quota_info (snd (load_token (calm serve_A) lone_primary))) ''chat'' = Some 5 \<and>
   load_token (calm serve_plain) numbered_token
     = (True, commit plain_response
          (numbered_token\<lparr>tokens_dir := [(''proxy_refactored.py'', ''import requests''),
             (''QuotaExhausted'', []), (primary, '' ghu_B  '')]\<rparr>)) \<and>
   map_of (tokens_dir (snd (load_token (calm serve_plain) numbered_token))) primary = Some '' ghu_B  '' \<and>
   current_quota_info (snd (load_token (calm serve_plain) numbered_token)) = []"
proof -
  have pa: "promote_token_to_primary primary (tokens_dir lone_primary) = tokens_dir lone_primary"
    by (simp add: promote_token_to_primary_def)
  have pb: "promote_token_to_primary ''7.copilot_token'' (tokens_dir numbered_token)
      = [(''proxy_refactored.py'', ''import requests''), (''QuotaExhausted'', []), (primary, '' ghu_B  '')]"
    by (simp add: promote_token_to_primary_def rename_within_def numbered_token_def primary_def)
  have a: "load_token (calm serve_A) lone_primary
       = (True, commit ok_response
            (lone_primary\<lparr>tokens_dir := promote_token_to_primary primary (tokens_dir lone_primary)\<rparr>)) \<and>
     map_of (tokens_dir (snd (load_token (calm serve_A) lone_primary))) primary = Some ''ghu_A'' \<and>
     current_quota_info (snd (load_token (calm serve_A) lone_primary)) = quota_info_of ok_response \<and>
     map_of (current_quota_info (snd (load_token (calm serve_A) lone_primary))) ''chat''
       = map_of (quota_info_of ok_response) ''chat''"
    by (rule load_token_single_credential[OF example_token_files(1)])
       (simp_all add: lone_primary_def primary_def calm_def serve_A_def listdir_def strip_def is_space_def
          quota_info_of_def ok_response_def)
  have b: "load_token (calm serve_plain) numbered_token
       = (True, commit plain_response
            (numbered_token\<lparr>tokens_dir
               := promote_token_to_primary ''7.copilot_token'' (tokens_dir numbered_token)\<rparr>)) \<and>
     map_of (tokens_dir (snd (load_token (calm serve_plain) numbered_token))) primary = Some '' ghu_B  '' \<and>
     current_quota_info (snd (load_token (calm serve_plain) numbered_token)) = quota_info_of plain_response \<and>
     map_of (current_quota_info (snd (load_token (calm serve_plain) numbered_token))) ''chat''
       = map_of (quota_info_of plain_response) ''chat''"
    by (rule load_token_single_credential[OF example_token_files(2)])
       (simp_all add: example_token_files(3) numbered_token_def calm_def serve_plain_def listdir_def
          quota_info_of_def plain_response_def names_not_due)
  have c: "lone_primary\<lparr>tokens_dir := tokens_dir lone_primary\<rparr> = lone_primary"
    by simp
  note a1 = a[THEN conjunct1, unfolded pa c]
  note a4 = a[THEN conjunct2, THEN conjunct2, THEN conjunct2]
  note b1 = b[THEN conjunct1, unfolded pb]
  note b2 = b[THEN conjunct2, THEN conjunct1]
  note b3 = b[THEN conjunct2, THEN conjunct2, THEN conjunct1]
  have a4': "map_of (current_quota_info (snd (load_token (calm serve_A) lone_primary))) ''chat'' = Some 5"
    unfolding a4 by (simp add: quota_info_of_def ok_response_def)
  have b3': "current_quota_info (snd (load_token (calm serve_plain) numbered_token)) = []"
    unfolding b3 by (simp add: quota_info_of_def plain_response_def)
  show ?thesis
    by (intro conjI) (rule a1, rule a4', rule b1, rule b2, rule b3')
qed


section \<open>Facts about time stamps in file names and about demotion\<close>

lemma digit_cases: "d < 10 \<Longrightarrow> d = 0 \<or> d = 1 \<or> d = 2 \<or> d = 3 \<or> d = 4 \<or> d = 5 \<or> d = 6 \<or> d = 7 \<or> d = 8 \<or> d = (9::nat)"
  by arith

lemma digit_char_props:
  assumes "d < 10"
  shows "is_digit (digit_char d)" and "digit_val (digit_char d) = d"
    and "\<not> is_c_space (digit_char d)" and "digit_char d \<noteq> CHR ''-''" and "digit_char d \<noteq> CHR ''+''"
    and "digit_char d \<noteq> CHR ''.''"
  using digit_cases[OF assms]
  by (auto simp: digit_char_def is_digit_def digit_val_def is_c_space_def)

lemma str_nat_nonempty: "str_nat n \<noteq> []"
  by (subst str_nat.simps) simp

lemma str_nat_chars: "c \<in> set (str_nat n) \<Longrightarrow> \<exists>d < 10. c = digit_char d"
proof (induction n rule: str_nat.induct)
  case (1 n)
  show ?case
  proof (cases "n < 10")
    case True
    with "1.prems" show ?thesis by (subst (asm) str_nat.simps) auto
  next
    case False
    with "1.prems" have "c \<in> set (str_nat (n div 10)) \<or> c = digit_char (n mod 10)"
      by (subst (asm) str_nat.simps) auto
    then show ?thesis
    proof
      assume "c \<in> set (str_nat (n div 10))"
      with "1.IH"[OF False] show ?thesis by simp
    next
      assume "c = digit_char (n mod 10)"
      moreover have "n mod 10 < 10" by simp
      ultimately show ?thesis by blast
    qed
  qed
qed

lemma str_nat_value: "foldl (\<lambda>a c. 10 * a + digit_val c) 0 (str_nat n) = n"
proof (induction n rule: str_nat.induct)
  case (1 n)
  show ?case
  proof (cases "n < 10")
    case True
    then show ?thesis by (subst str_nat.simps) (simp add: digit_char_props)
  next
    case False
    have "n mod 10 < 10" by simp
    with False "1.IH"[OF False] show ?thesis
      by (subst str_nat.simps) (simp add: digit_char_props)
  qed
qed

lemma parse_digits_all:
  "\<forall>c \<in> set ds. is_digit c \<Longrightarrow>
   parse_digits acc prev ds
     = (if ds = [] \<and> \<not> prev then None else Some (foldl (\<lambda>a c. 10 * a + digit_val c) acc ds))"
  by (induction ds arbitrary: acc prev) simp_all

lemma strip_c_space_id:
  assumes "s \<noteq> []" and "\<not> is_c_space (hd s)" and "\<not> is_c_space (last s)"
  shows "strip_c_space s = s"
proof -
  from assms have a: "dropWhile is_c_space s = s" by (cases s) simp_all
  from assms have "rev s \<noteq> []" "\<not> is_c_space (hd (rev s))" by (simp_all add: hd_rev)
  then have "dropWhile is_c_space (rev s) = rev s" by (cases "rev s") simp_all
  with a show ?thesis by (simp add: strip_c_space_def)
qed

lemma str_nat_char_plain:
  assumes "c \<in> set (str_nat n)"
  shows "is_digit c" and "\<not> is_c_space c" and "c \<noteq> CHR ''-''" and "c \<noteq> CHR ''+''" and "c \<noteq> CHR ''.''"
proof -
  from str_nat_chars[OF assms] obtain d where d: "d < 10" "c = digit_char d" by blast
  show "is_digit c" using digit_char_props(1)[OF d(1)] d(2) by simp
  show "\<not> is_c_space c" using digit_char_props(3)[OF d(1)] d(2) by simp
  show "c \<noteq> CHR ''-''" using digit_char_props(4)[OF d(1)] d(2) by simp
  show "c \<noteq> CHR ''+''" using digit_char_props(5)[OF d(1)] d(2) by simp
  show "c \<noteq> CHR ''.''" using digit_char_props(6)[OF d(1)] d(2) by simp
qed

lemma str_nat_ends:
  "\<not> is_c_space (hd (str_nat n))" "\<not> is_c_space (last (str_nat n))"
  "hd (str_nat n) \<noteq> CHR ''-''" "hd (str_nat n) \<noteq> CHR ''+''"
proof -
  have h: "hd (str_nat n) \<in> set (str_nat n)" and l: "last (str_nat n) \<in> set (str_nat n)"
    using str_nat_nonempty by simp_all
  show "\<not> is_c_space (hd (str_nat n))" by (rule str_nat_char_plain(2)[OF h])
  show "hd (str_nat n) \<noteq> CHR ''-''" by (rule str_nat_char_plain(3)[OF h])
  show "hd (str_nat n) \<noteq> CHR ''+''" by (rule str_nat_char_plain(4)[OF h])
  show "\<not> is_c_space (last (str_nat n))" by (rule str_nat_char_plain(2)[OF l])
qed

lemma parse_str_nat: "parse_digits 0 prev (str_nat n) = Some n"
proof -
  have "\<forall>c \<in> set (str_nat n). is_digit c"
    using str_nat_char_plain(1) by blast
  from parse_digits_all[OF this] show ?thesis
    by (simp add: str_nat_value str_nat_nonempty)
qed

lemma py_int_str_int: "py_int (str_int t) = Some t"
proof (cases "t < 0")
  case True
  have st: "strip_c_space (CHR ''-'' # str_nat (nat (- t))) = CHR ''-'' # str_nat (nat (- t))"
    using str_nat_ends(2)[of "nat (- t)"] str_nat_nonempty[of "nat (- t)"]
    by (intro strip_c_space_id) (simp_all add: is_c_space_def)
  have "py_int (CHR ''-'' # str_nat (nat (- t))) = Some (- int (nat (- t)))"
    unfolding py_int_def st by (simp add: parse_str_nat)
  with True show ?thesis
    by (simp add: str_int_def)
next
  case False
  obtain c cs where s: "str_nat (nat t) = c # cs"
    using str_nat_nonempty[of "nat t"] by (cases "str_nat (nat t)") auto
  have st: "strip_c_space (str_nat (nat t)) = c # cs"
    using str_nat_ends(1,2) str_nat_nonempty s by (metis strip_c_space_id)
  have c: "c \<noteq> CHR ''-''" "c \<noteq> CHR ''+''"
    using str_nat_ends(3,4)[of "nat t"] s by simp_all
  have p: "parse_digits 0 False (c # cs) = Some (nat t)"
    using parse_str_nat[of False "nat t"] s by simp
  have "py_int (str_nat (nat t)) = Some (int (nat t))"
    unfolding py_int_def st using c p by simp
  with False show ?thesis
    by (simp add: str_int_def)
qed

lemma replace_ext_suffix:
  "CHR ''.'' \<notin> set s \<Longrightarrow> replace_all token_ext '''' (s @ token_ext) = s"
proof (induction s)
  case Nil
  show ?case by (simp add: token_ext_def)
next
  case (Cons c cs)
  then have "c \<noteq> CHR ''.''" by auto
  then have "take (length token_ext) (c # cs @ token_ext) \<noteq> token_ext"
    by (simp add: token_ext_def)
  with Cons show ?case by simp
qed

lemma str_nat_no_dot: "CHR ''.'' \<notin> set (str_nat n)"
  using str_nat_char_plain(5) by blast

lemma str_int_no_dot: "CHR ''.'' \<notin> set (str_int t)"
  by (simp add: str_int_def str_nat_no_dot)

lemma endswith_append: "endswith (s @ suf) suf"
  by (simp add: endswith_def)

lemma reset_timestamp_of_str_int: "reset_timestamp_of (str_int t @ token_ext) = Some t"
  by (simp add: reset_timestamp_of_def endswith_append replace_ext_suffix str_int_no_dot py_int_str_int)

lemma timestamp_name_not_primary: "str_int t @ token_ext \<noteq> primary"
  using str_nat_nonempty by (auto simp: str_int_def token_ext_def primary_def)


lemma recover_keeps_others:
  assumes "\<not> recoverable t g"
  shows "map_of (quota_exhausted_dir (snd (recover_expired_tokens t M))) g = map_of (quota_exhausted_dir M) g"
    and "map_of (tokens_dir (snd (recover_expired_tokens t M))) g = map_of (tokens_dir M) g"
  using assms
  by (simp_all add: recover_expired_tokens_def fold_recover_exhausted fold_recover_tokens)

lemma recover_repeatedly_keeps_others:
  assumes "reset_timestamp_of g = None"
  shows "map_of (quota_exhausted_dir (recover_repeatedly ts M)) g = map_of (quota_exhausted_dir M) g \<and>
         map_of (tokens_dir (recover_repeatedly ts M)) g = map_of (tokens_dir M) g"
proof (induction ts arbitrary: M)
  case Nil
  show ?case by (simp add: recover_repeatedly_def)
next
  case (Cons t ts)
  have n: "\<not> recoverable t g" using assms by (simp add: recoverable_def)
  have "recover_repeatedly (t # ts) M = recover_repeatedly ts (snd (recover_expired_tokens t M))"
    by (simp add: recover_repeatedly_def)
  with Cons.IH[of "snd (recover_expired_tokens t M)"] recover_keeps_others[OF n, of M]
  show ?case by simp
qed

lemma demote_effect:
  assumes "map_of (tokens_dir m) primary = Some secret"
  shows "tokens_dir (demote d m) = AList.delete primary (tokens_dir m)"
    and "map_of (quota_exhausted_dir (demote d m)) (format_reset_date d @ token_ext) = Some secret"
    and "map_of (tokens_dir (demote d m)) primary = None"
  using assms by (simp_all add: demote_def AList.update_conv' AList.delete_conv')

lemma primary_never_recoverable: "\<not> recoverable t primary"
  by (simp add: recoverable_def reset_timestamp_of_def primary_def token_ext_def py_int_def strip_c_space_def is_c_space_def strip_def)

lemma no_primary_not_candidate:
  assumes "map_of d primary = None"
  shows "find_next_available_token d \<noteq> Some primary"
proof
  assume a: "find_next_available_token d = Some primary"
  from assms have n: "\<not> exists d primary" by (simp add: exists_def map_of_listdir)
  from find_next_numbered[OF n a] n show False by (simp add: exists_def)
qed

section \<open>C6: a demoted credential\<close>

text \<open>
  Claim C6. Let the primary file hold the secret of credential X and let
  \<open>load_token\<close> demote it with the reset date \<open>t\<close>. Then the next candidate
  is not the primary slot that X held, X is in the exhausted directory under the
  name made of \<open>t\<close>, and that name reads back as \<open>t\<close>. After a
  \<open>_recover_expired_tokens\<close> at a time strictly before \<open>t\<close>, X is still in the
  exhausted directory, the tokens directory has nothing new under that name, and
  the primary slot is still not a candidate.
\<close>

theorem demoted_not_candidate_nor_recovered_early:
  assumes "map_of (tokens_dir m) primary = Some secret" and "current_time < t"
  shows "find_next_available_token (tokens_dir (demote (Some t) m)) \<noteq> Some primary \<and>
         map_of (quota_exhausted_dir (demote (Some t) m)) (str_int t @ token_ext) = Some secret \<and>
         reset_timestamp_of (str_int t @ token_ext) = Some t \<and>
         map_of (quota_exhausted_dir (snd (recover_expired_tokens current_time (demote (Some t) m))))
             (str_int t @ token_ext) = Some secret \<and>
         map_of (tokens_dir (snd (recover_expired_tokens current_time (demote (Some t) m))))
             (str_int t @ token_ext) = map_of (tokens_dir m) (str_int t @ token_ext) \<and>
         find_next_available_token (tokens_dir (snd (recover_expired_tokens current_time (demote (Some t) m))))
             \<noteq> Some primary"
proof -
  let ?m1 = "demote (Some t) m"
  let ?name = "str_int t @ token_ext"
  note d = demote_effect[OF assms(1), of "Some t"]
  have n: "\<not> recoverable current_time ?name"
    using assms(2) by (simp add: recoverable_def reset_timestamp_of_str_int)
  have a: "find_next_available_token (tokens_dir ?m1) \<noteq> Some primary"
    by (rule no_primary_not_candidate) (rule d(3))
  have b: "map_of (quota_exhausted_dir ?m1) ?name = Some secret"
    using d(2) by (simp add: format_reset_date_def)
  have c: "map_of (quota_exhausted_dir (snd (recover_expired_tokens current_time ?m1))) ?name = Some secret"
    using recover_keeps_others(1)[OF n, of ?m1] b by simp
  have "map_of (tokens_dir ?m1) ?name = map_of (tokens_dir m) ?name"
    using timestamp_name_not_primary[of t] by (simp add: d(1))
  then have e: "map_of (tokens_dir (snd (recover_expired_tokens current_time ?m1))) ?name
      = map_of (tokens_dir m) ?name"
    using recover_keeps_others(2)[OF n, of ?m1] by simp
  have "map_of (tokens_dir (snd (recover_expired_tokens current_time ?m1))) primary = None"
    using recover_keeps_others(2)[OF primary_never_recoverable, of current_time ?m1] d(3) by simp
  then have f: "find_next_available_token (tokens_dir (snd (recover_expired_tokens current_time ?m1)))
      \<noteq> Some primary"
    by (rule no_primary_not_candidate)
  from a b c e f reset_timestamp_of_str_int show ?thesis by blast
qed

lemma name_1800: "str_int 1800000000 @ token_ext = ''1800000000.copilot_token''"
  by (simp add: str_int_def str_nat.simps digit_char_def token_ext_def)

theorem demoted_not_candidate_nor_recovered_early_witness:
  "map_of (tokens_dir one_token) primary = Some ''ghu_A'' \<and> (1700000000::int) < 1800000000 \<and>
   find_next_available_token (tokens_dir (demote (Some 1800000000) one_token)) \<noteq> Some primary \<and>
   map_of (quota_exhausted_dir (demote (Some 1800000000) one_token)) ''1800000000.copilot_token'' = Some ''ghu_A'' \<and>
   map_of (quota_exhausted_dir (snd (recover_expired_tokens 1700000000 (demote (Some 1800000000) one_token))))
      ''1800000000.copilot_token'' = Some ''ghu_A'' \<and>
   map_of (tokens_dir (snd (recover_expired_tokens 1700000000 (demote (Some 1800000000) one_token))))
      ''1800000000.copilot_token'' = None \<and>
   find_next_available_token (tokens_dir (snd (recover_expired_tokens 1700000000 (demote (Some 1800000000) one_token))))
      \<noteq> Some primary"
proof -
  have a: "map_of (tokens_dir one_token) primary = Some ''ghu_A''"
    by (simp add: one_token_def primary_def)
  have b: "(1700000000::int) < 1800000000" by simp
  have c: "map_of (tokens_dir one_token) ''1800000000.copilot_token'' = None"
    by (simp add: one_token_def)
  from demoted_not_candidate_nor_recovered_early[OF a b] a b c show ?thesis
    by (simp add: name_1800)
qed

lemma none_name: "format_reset_date None @ token_ext = ''None.copilot_token''"
  by (simp add: format_reset_date_def token_ext_def)

lemma none_name_no_timestamp: "reset_timestamp_of ''None.copilot_token'' = None"
  by (simp add: reset_timestamp_of_def endswith_def token_ext_def py_int_def strip_c_space_def is_c_space_def strip_def is_space_def
      is_digit_def)

section \<open>C10: demotion without a reset date\<close>

text \<open>
  Claim C10. When the answer has no \<open>limited_user_reset_date\<close>, the demoted
  credential is stored as \<open>None.copilot_token\<close>; \<open>None\<close> is no integer, so
  whatever the times of the later calls of \<open>_recover_expired_tokens\<close>, the
  credential stays in the exhausted directory and the tokens directory gets
  nothing under that name.
\<close>

theorem demoted_without_reset_date_stays_exhausted:
  assumes "map_of (tokens_dir m) primary = Some secret"
  shows "format_reset_date None @ token_ext = ''None.copilot_token'' \<and>
         py_int ''None'' = None \<and>
         map_of (quota_exhausted_dir (demote None m)) ''None.copilot_token'' = Some secret \<and>
         map_of (quota_exhausted_dir (recover_repeatedly ts (demote None m))) ''None.copilot_token'' = Some secret \<and>
         map_of (tokens_dir (recover_repeatedly ts (demote None m))) ''None.copilot_token''
           = map_of (tokens_dir m) ''None.copilot_token''"
proof -
  note d = demote_effect[OF assms, of None]
  have p: "py_int ''None'' = None"
    by (simp add: py_int_def strip_c_space_def is_c_space_def strip_def is_space_def is_digit_def)
  have b: "map_of (quota_exhausted_dir (demote None m)) ''None.copilot_token'' = Some secret"
    using d(2) by (simp add: none_name)
  have "map_of (tokens_dir (demote None m)) ''None.copilot_token'' = map_of (tokens_dir m) ''None.copilot_token''"
    by (simp add: d(1) primary_def)
  with recover_repeatedly_keeps_others[OF none_name_no_timestamp, of ts "demote None m"] b none_name p
  show ?thesis by simp
qed

theorem demoted_without_reset_date_stays_exhausted_witness:
  "map_of (tokens_dir one_token) primary = Some ''ghu_A'' \<and>
   map_of (quota_exhausted_dir (demote None one_token)) ''None.copilot_token'' = Some ''ghu_A'' \<and>
   map_of (quota_exhausted_dir (recover_repeatedly [1700000000, 1800000000, 99999999999] (demote None one_token)))
      ''None.copilot_token'' = Some ''ghu_A'' \<and>
   map_of (tokens_dir (recover_repeatedly [1700000000, 1800000000, 99999999999] (demote None one_token)))
      ''None.copilot_token'' = None"
proof -
  have a: "map_of (tokens_dir one_token) primary = Some ''ghu_A''"
    by (simp add: one_token_def primary_def)
  have c: "map_of (tokens_dir one_token) ''None.copilot_token'' = None"
    by (simp add: one_token_def)
  from demoted_without_reset_date_stays_exhausted[OF a, of "[1700000000, 1800000000, 99999999999]"] a c
  show ?thesis by simp
qed

section \<open>Facts about a pool in which every credential is exhausted\<close>

lemma listdir_delete:
  "set (listdir (AList.delete k d)) = set (listdir d) - {k}"
  "distinct (listdir d) \<Longrightarrow> distinct (listdir (AList.delete k d))"
  by (simp_all add: listdir_def AList.delete_keys distinct_removeAll)

lemma listdir_update:
  "set (listdir (AList.update k v d)) = insert k (set (listdir d))"
  "distinct (listdir d) \<Longrightarrow> distinct (listdir (AList.update k v d))"
  using AList.dom_update[of k v d] AList.distinct_update[of d k v]
  by (simp_all add: listdir_def)

lemma count_card:
  "distinct (listdir (tokens_dir m)) \<Longrightarrow>
   get_available_token_count m = card {f \<in> set (listdir (tokens_dir m)). endswith f token_ext}"
proof -
  assume "distinct (listdir (tokens_dir m))"
  then have "length (filter (\<lambda>f. endswith f token_ext) (listdir (tokens_dir m)))
      = card ({f. endswith f token_ext} \<inter> set (listdir (tokens_dir m)))"
    by (rule distinct_length_filter)
  moreover have "{f. endswith f token_ext} \<inter> set (listdir (tokens_dir m))
      = {f \<in> set (listdir (tokens_dir m)). endswith f token_ext}" by auto
  ultimately show ?thesis by (simp add: get_available_token_count_def)
qed

lemma well_named_iff:
  "well_named d \<longleftrightarrow> distinct (listdir d) \<and>
     (\<forall>f \<in> set (listdir d). endswith f token_ext \<longrightarrow> f = primary \<or> rank_of f \<noteq> None)"
  by (auto simp: well_named_def list_all_iff)

lemma primary_is_token: "endswith primary token_ext"
  by (simp add: endswith_def primary_def token_ext_def)

lemma ranked_is_token: "rank_of f = Some r \<Longrightarrow> endswith f token_ext \<and> f \<noteq> primary"
  by (simp add: rank_of_def split: if_splits)

lemma candidate_exists:
  assumes wn: "well_named d" and pos: "\<exists>f \<in> set (listdir d). endswith f token_ext"
  shows "find_next_available_token d \<noteq> None"
proof (cases "exists d primary")
  case True
  then show ?thesis by (simp add: find_next_primary)
next
  case False
  from pos obtain f where f: "f \<in> set (listdir d)" "endswith f token_ext" by blast
  with wn False have "rank_of f \<noteq> None" by (auto simp: well_named_iff exists_def)
  with f(1) show ?thesis using find_next_None[OF False] by auto
qed

lemma promote_candidate:
  assumes wn: "well_named d" and cand: "find_next_available_token d = Some p"
  shows "well_named (promote_token_to_primary p d) \<and>
         primary \<in> set (listdir (promote_token_to_primary p d)) \<and>
         card {f \<in> set (listdir (promote_token_to_primary p d)). endswith f token_ext}
           = card {f \<in> set (listdir d). endswith f token_ext}"
proof (cases "exists d primary")
  case True
  with cand have "p = primary" by (simp add: find_next_primary)
  with wn True show ?thesis by (simp add: promote_token_to_primary_def exists_def)
next
  case False
  from find_next_numbered[OF False cand] obtain r where
    p: "p \<in> set (listdir d)" "rank_of p = Some r" by blast
  from ranked_is_token[OF p(2)] have pt: "endswith p token_ext" "p \<noteq> primary" by simp_all
  from p(1) obtain c where c: "map_of d p = Some c" using map_of_listdir_Some[of d p] by blast
  let ?d1 = "AList.update primary c (AList.delete p d)"
  have d1: "promote_token_to_primary p d = ?d1"
    using pt c by (simp add: promote_token_to_primary_def rename_within_def)
  have names: "set (listdir ?d1) = insert primary (set (listdir d) - {p})"
    by (simp add: listdir_update listdir_delete)
  have dist: "distinct (listdir ?d1)"
    using wn by (simp add: listdir_update listdir_delete well_named_iff)
  have wn1: "well_named ?d1"
    using wn dist names by (auto simp: well_named_iff)
  have np: "primary \<notin> set (listdir d)" using False by (simp add: exists_def)
  let ?T = "{f \<in> set (listdir d). endswith f token_ext}"
  have T1: "{f \<in> set (listdir ?d1). endswith f token_ext} = insert primary (?T - {p})"
    using names primary_is_token by auto
  have fin: "finite ?T" by simp
  have pT: "p \<in> ?T" using p(1) pt(1) by simp
  have nT: "primary \<notin> ?T - {p}" using np by simp
  have "card (insert primary (?T - {p})) = Suc (card (?T - {p}))"
    using nT fin by (intro card_insert_disjoint) simp_all
  also have "\<dots> = card ?T"
    using pT fin by (metis card_Suc_Diff1)
  finally have "card (insert primary (?T - {p})) = card ?T" .
  with T1 wn1 names show ?thesis by (simp add: d1)
qed


lemma demote_session:
  "current_token (demote d m) = current_token m \<and> current_quota_info (demote d m) = current_quota_info m \<and>
   telemetry_enabled (demote d m) = telemetry_enabled m \<and> api_url (demote d m) = api_url m"
  by (simp add: demote_def split: option.splits)

text \<open>An exit other than the commit leaves the session as it was.\<close>

lemma load_loop_session:
  "fst (load_loop e as m) \<noteq> Loaded \<Longrightarrow>
   current_token (snd (load_loop e as m)) = current_token m \<and>
   current_quota_info (snd (load_loop e as m)) = current_quota_info m \<and>
   telemetry_enabled (snd (load_loop e as m)) = telemetry_enabled m \<and>
   api_url (snd (load_loop e as m)) = api_url m"
proof (induction as arbitrary: m)
  case Nil
  show ?case by simp
next
  case (Cons a as)
  show ?case
  proof (cases "find_next_available_token (tokens_dir m)")
    case None
    then show ?thesis by simp
  next
    case (Some p)
    define m1 where "m1 = m\<lparr>tokens_dir := race e a (promote_token_to_primary p (tokens_dir m))\<rparr>"
    have s1: "current_token m1 = current_token m \<and> current_quota_info m1 = current_quota_info m \<and>
        telemetry_enabled m1 = telemetry_enabled m \<and> api_url m1 = api_url m"
      by (simp add: m1_def)
    show ?thesis
    proof (cases "map_of (tokens_dir m1) primary")
      case None
      with Some have eq: "load_loop e (a # as) m = load_loop e as m1"
        by (simp add: m1_def Let_def)
      with Cons.prems Cons.IH[of m1] s1 show ?thesis by simp
    next
      case c: (Some content)
      show ?thesis
      proof (cases "fetch e a (strip content)")
        case None
        with Some c have eq: "load_loop e (a # as) m = load_loop e as m1"
          by (simp add: m1_def Let_def)
        with Cons.prems Cons.IH[of m1] s1 show ?thesis by simp
      next
        case r: (Some r)
        define m2 where "m2 = demote (limited_user_reset_date r) m1"
        have s2: "current_token m2 = current_token m \<and> current_quota_info m2 = current_quota_info m \<and>
            telemetry_enabled m2 = telemetry_enabled m \<and> api_url m2 = api_url m"
          using s1 demote_session[of "limited_user_reset_date r" m1] by (simp add: m2_def)
        show ?thesis
        proof (cases "chat_quota r = 0")
          case False
          with Some c r have "load_loop e (a # as) m = (Loaded, commit r m1)"
            by (simp add: m1_def Let_def)
          with Cons.prems show ?thesis by simp
        next
          case True
          show ?thesis
          proof (cases "get_available_token_count m2 = 0")
            case z: True
            with True Some c r have "load_loop e (a # as) m = (NoQuotaLeft, m2)"
              by (simp add: m1_def m2_def Let_def)
            with s2 show ?thesis by simp
          next
            case z: False
            with True Some c r have eq: "load_loop e (a # as) m = load_loop e as m2"
              by (simp add: m1_def m2_def Let_def)
            with Cons.prems Cons.IH[of m2] s2 show ?thesis by simp
          qed
        qed
      qed
    qed
  qed
qed

lemma exhausted_iteration:
  assumes f0: "\<forall>i s. \<exists>r. fetch e i s = Some r \<and> chat_quota r = 0"
    and calm: "\<forall>i d. race e i d = d"
    and wn: "well_named (tokens_dir m)"
    and pos: "0 < get_available_token_count m"
  shows "\<exists>m2. well_named (tokens_dir m2) \<and>
           get_available_token_count m2 = get_available_token_count m - 1 \<and>
           load_loop e (a # rest) m
             = (if get_available_token_count m2 = 0 then (NoQuotaLeft, m2) else load_loop e rest m2)"
proof -
  let ?d = "tokens_dir m"
  from pos have "\<exists>f \<in> set (listdir ?d). endswith f token_ext"
    by (auto simp: get_available_token_count_def filter_empty_conv)
  from candidate_exists[OF wn this] obtain p where p: "find_next_available_token ?d = Some p"
    by auto
  let ?d1 = "promote_token_to_primary p ?d"
  from promote_candidate[OF wn p] have wn1: "well_named ?d1"
    and pr: "primary \<in> set (listdir ?d1)"
    and cd: "card {f \<in> set (listdir ?d1). endswith f token_ext}
               = card {f \<in> set (listdir ?d). endswith f token_ext}"
    by simp_all
  define m1 where "m1 = m\<lparr>tokens_dir := ?d1\<rparr>"
  from pr obtain c where c: "map_of (tokens_dir m1) primary = Some c"
    using map_of_listdir_Some[of ?d1 primary] by (auto simp: m1_def)
  from f0 obtain r where r: "fetch e a (strip c) = Some r" "chat_quota r = 0" by blast
  define m2 where "m2 = demote (limited_user_reset_date r) m1"
  have t2: "tokens_dir m2 = AList.delete primary ?d1"
    using demote_effect(1)[OF c] by (simp add: m2_def m1_def)
  have wn2: "well_named (tokens_dir m2)"
    using wn1 by (auto simp: t2 well_named_iff listdir_delete)
  have d: "distinct (listdir ?d)" "distinct (listdir ?d1)" "distinct (listdir (tokens_dir m2))"
    using wn wn1 wn2 by (simp_all add: well_named_iff)
  have "{f \<in> set (listdir (tokens_dir m2)). endswith f token_ext}
      = {f \<in> set (listdir ?d1). endswith f token_ext} - {primary}"
    by (auto simp: t2 listdir_delete)
  moreover have "primary \<in> {f \<in> set (listdir ?d1). endswith f token_ext}"
    using pr primary_is_token by simp
  ultimately have "card {f \<in> set (listdir (tokens_dir m2)). endswith f token_ext}
      = card {f \<in> set (listdir ?d1). endswith f token_ext} - 1"
    by simp
  then have cnt: "get_available_token_count m2 = get_available_token_count m - 1"
    using count_card[OF d(1)] count_card[OF d(3)] cd by simp
  have "load_loop e (a # rest) m
      = (if get_available_token_count m2 = 0 then (NoQuotaLeft, m2) else load_loop e rest m2)"
    using p c r calm by (simp add: m1_def m2_def Let_def)
  with wn2 cnt show ?thesis by blast
qed

lemma all_exhausted_loop:
  assumes f0: "\<forall>i s. \<exists>r. fetch e i s = Some r \<and> chat_quota r = 0"
    and calm: "\<forall>i d. race e i d = d"
  shows "well_named (tokens_dir m) \<Longrightarrow> 0 < get_available_token_count m \<Longrightarrow>
     (get_available_token_count m \<le> length as \<longrightarrow>
        fst (load_loop e as m) = NoQuotaLeft \<and> get_available_token_count (snd (load_loop e as m)) = 0) \<and>
     (length as < get_available_token_count m \<longrightarrow>
        fst (load_loop e as m) = AttemptsExceeded \<and>
        get_available_token_count (snd (load_loop e as m)) = get_available_token_count m - length as)"
proof (induction as arbitrary: m)
  case Nil
  then show ?case by simp
next
  case (Cons a as)
  from exhausted_iteration[OF f0 calm Cons.prems, of a as] obtain m2 where
    wn2: "well_named (tokens_dir m2)"
    and cnt: "get_available_token_count m2 = get_available_token_count m - 1"
    and eq: "load_loop e (a # as) m
       = (if get_available_token_count m2 = 0 then (NoQuotaLeft, m2) else load_loop e as m2)"
    by blast
  show ?case
  proof (cases "get_available_token_count m2 = 0")
    case True
    with cnt Cons.prems(2) have "get_available_token_count m = 1" by simp
    with True eq show ?thesis by simp
  next
    case False
    then have pos2: "0 < get_available_token_count m2" by simp
    from Cons.IH[OF wn2 pos2] False eq cnt Cons.prems(2) show ?thesis
      by (auto simp: Suc_le_eq)
  qed
qed


section \<open>C2: every credential is exhausted\<close>

text \<open>
  Claim C2, amended. Every exchange answers with a chat quota of 0, no other
  process interferes, no exhausted file is due, and the tokens directory is
  well named and holds at least one token file. Then \<open>load_token\<close> returns
  \<open>False\<close> and the committed token, quota snapshot, telemetry flag and base URL
  are what they were. When moreover the directory holds at most
  \<open>MAX_TOKEN_ROTATION_ATTEMPTS\<close> token files, the return is the one that follows
  the demotion of the last credential, and \<open>get_available_token_count\<close> is 0
  afterwards.
\<close>

theorem all_credentials_exhausted:
  assumes f0: "\<forall>i s. \<exists>r. fetch e i s = Some r \<and> chat_quota r = 0"
    and calm: "\<forall>i d. race e i d = d"
    and due: "\<forall>f \<in> set (listdir (quota_exhausted_dir m)). \<not> recoverable (now e) f"
    and wn: "well_named (tokens_dir m)"
    and pos: "0 < get_available_token_count m"
  shows "fst (load_token e m) = False \<and>
         current_token (snd (load_token e m)) = current_token m \<and>
         current_quota_info (snd (load_token e m)) = current_quota_info m \<and>
         telemetry_enabled (snd (load_token e m)) = telemetry_enabled m \<and>
         api_url (snd (load_token e m)) = api_url m \<and>
         (get_available_token_count m \<le> MAX_TOKEN_ROTATION_ATTEMPTS \<longrightarrow>
            fst (load_token_exit e m) = NoQuotaLeft \<and>
            get_available_token_count (snd (load_token e m)) = 0)"
proof -
  let ?as = "[0..<MAX_TOKEN_ROTATION_ATTEMPTS]"
  have ex: "load_token_exit e m = load_loop e ?as m"
    by (simp add: load_token_exit_def recover_nothing_due[OF due])
  have nl: "fst (load_loop e ?as m) \<noteq> Loaded"
  proof
    assume "fst (load_loop e ?as m) = Loaded"
    then have "load_loop e ?as m = (Loaded, snd (load_loop e ?as m))"
      by (simp add: prod_eq_iff)
    from load_loop_Loaded[OF this] obtain a s r where
      "fetch e a s = Some r" "chat_quota r \<noteq> 0" by blast
    with f0 show False by (metis option.inject)
  qed
  note ses = load_loop_session[OF nl]
  note lp = all_exhausted_loop[OF f0 calm wn pos, of ?as]
  show ?thesis
    using nl ses lp by (simp add: load_token_def ex)
qed

lemma serve_exhausted_zero:
  "\<forall>i s. \<exists>r. fetch (calm serve_exhausted) i s = Some r \<and> chat_quota r = 0"
  by (simp add: calm_def serve_exhausted_def exhausted_response_def chat_quota_def quota_info_of_def)

lemma calm_no_race: "\<forall>i d. race (calm f) i d = d"
  by (simp add: calm_def)

theorem all_credentials_exhausted_witness:
  "well_named (tokens_dir two_tokens) \<and> get_available_token_count two_tokens = 2 \<and>
   fst (load_token (calm serve_exhausted) two_tokens) = False \<and>
   fst (load_token_exit (calm serve_exhausted) two_tokens) = NoQuotaLeft \<and>
   get_available_token_count (snd (load_token (calm serve_exhausted) two_tokens)) = 0 \<and>
   current_token (snd (load_token (calm serve_exhausted) two_tokens)) = Some ''old'' \<and>
   current_quota_info (snd (load_token (calm serve_exhausted) two_tokens)) = [(''chat'', 3)] \<and>
   telemetry_enabled (snd (load_token (calm serve_exhausted) two_tokens)) = False \<and>
   api_url (snd (load_token (calm serve_exhausted) two_tokens)) = ''https://api.githubcopilot.com''"
proof -
  have due: "\<forall>f \<in> set (listdir (quota_exhausted_dir two_tokens)). \<not> recoverable (now (calm serve_exhausted)) f"
    by (simp add: two_tokens_def listdir_def)
  have wn: "well_named (tokens_dir two_tokens)"
    by (simp add: well_named_def two_tokens_def listdir_def primary_def rank_of_def endswith_def
        token_ext_def py_int_def strip_c_space_def is_c_space_def strip_def is_space_def is_digit_def digit_val_def)
  have c: "get_available_token_count two_tokens = 2"
    by (simp add: get_available_token_count_def two_tokens_def listdir_def endswith_def token_ext_def)
  then have pos: "0 < get_available_token_count two_tokens" by simp
  from all_credentials_exhausted[OF serve_exhausted_zero calm_no_race due wn pos] wn c
  show ?thesis
    by (simp add: MAX_TOKEN_ROTATION_ATTEMPTS_def two_tokens_def)
qed

lemma rank_of_str_int: "rank_of (str_int t @ token_ext) = Some t"
  using reset_timestamp_of_str_int[of t] timestamp_name_not_primary[of t]
  by (simp add: rank_of_def reset_timestamp_of_def split: if_splits)

lemma many_tokens_shape:
  "well_named (tokens_dir many_tokens)" "get_available_token_count many_tokens = 101"
proof -
  let ?f = "\<lambda>i. str_int (int i) @ token_ext"
  have l: "listdir (tokens_dir many_tokens) = map ?f [1..<102]"
    by (simp add: many_tokens_def listdir_def comp_def)
  have "inj ?f"
  proof (rule injI)
    fix a b :: nat assume "?f a = ?f b"
    then have "reset_timestamp_of (?f a) = reset_timestamp_of (?f b)" by simp
    then show "a = b" by (simp add: reset_timestamp_of_str_int)
  qed
  then have "inj_on ?f (set [1..<102])" by (rule inj_on_subset) simp
  then have d: "distinct (map ?f [1..<102])" by (simp add: distinct_map)
  have r: "\<forall>g \<in> set (map ?f [1..<102]). rank_of g \<noteq> None"
    by (auto simp: rank_of_str_int)
  from d r show "well_named (tokens_dir many_tokens)"
    unfolding well_named_iff l by blast
  have "\<forall>g \<in> set (map ?f [1..<102]). endswith g token_ext"
    by (auto simp: endswith_append)
  then have "filter (\<lambda>g. endswith g token_ext) (map ?f [1..<102]) = map ?f [1..<102]"
    by (simp only: filter_True)
  then show "get_available_token_count many_tokens = 101"
    unfolding get_available_token_count_def l by simp
qed

text \<open>
  Claim C2 as stated promises the return after the last demotion for every pool.
  With 101 exhausted credentials the hundred attempts demote one hundred of them;
  \<open>load_token\<close> returns at the attempt bound and one credential is left in the
  tokens directory, never exchanged.
\<close>

theorem attempt_bound_before_exhaustion_counterexample:
  "chat_quota exhausted_response = 0 \<and> quota_exhausted_dir many_tokens = [] \<and>
   get_available_token_count many_tokens = 101 \<and>
   fst (load_token (calm serve_exhausted) many_tokens) = False \<and>
   fst (load_token_exit (calm serve_exhausted) many_tokens) = AttemptsExceeded \<and>
   get_available_token_count (snd (load_token (calm serve_exhausted) many_tokens)) = 1"
proof -
  let ?as = "[0..<MAX_TOKEN_ROTATION_ATTEMPTS]"
  have q: "chat_quota exhausted_response = 0"
    by (simp add: exhausted_response_def chat_quota_def quota_info_of_def)
  have e: "quota_exhausted_dir many_tokens = []" by (simp add: many_tokens_def)
  have ex: "load_token_exit (calm serve_exhausted) many_tokens
      = load_loop (calm serve_exhausted) ?as many_tokens"
    by (simp add: load_token_exit_def recover_expired_tokens_def e listdir_def)
  have pos: "0 < get_available_token_count many_tokens"
    by (simp add: many_tokens_shape(2))
  have len: "length ?as < get_available_token_count many_tokens"
    by (simp add: many_tokens_shape(2) MAX_TOKEN_ROTATION_ATTEMPTS_def)
  from all_exhausted_loop[OF serve_exhausted_zero calm_no_race many_tokens_shape(1) pos, of ?as] len
  have "fst (load_loop (calm serve_exhausted) ?as many_tokens) = AttemptsExceeded"
    and "get_available_token_count (snd (load_loop (calm serve_exhausted) ?as many_tokens))
           = get_available_token_count many_tokens - length ?as"
    by blast+
  then show ?thesis
    using q e by (simp add: load_token_def ex many_tokens_shape(2) MAX_TOKEN_ROTATION_ATTEMPTS_def)
qed


section \<open>C4: a secret that disappears before it is read\<close>

text \<open>
  Claim C4, amended. When the primary file of the promoted candidate is gone at
  the moment it is opened, \<open>load_token\<close> skips to the next attempt with nothing
  changed but what the other process did to the tokens directory. The skip uses
  up the attempt: the loop goes on with the attempts that are left, and when the
  attempt was the last one \<open>load_token\<close> returns at the attempt bound.
\<close>

theorem missing_secret_consumes_one_attempt:
  assumes "find_next_available_token (tokens_dir m) = Some p"
    and "map_of (race e attempt (promote_token_to_primary p (tokens_dir m))) primary = None"
  shows "load_loop e (attempt # rest) m
           = load_loop e rest (m\<lparr>tokens_dir := race e attempt (promote_token_to_primary p (tokens_dir m))\<rparr>) \<and>
         load_loop e [attempt] m
           = (AttemptsExceeded, m\<lparr>tokens_dir := race e attempt (promote_token_to_primary p (tokens_dir m))\<rparr>)"
  using assms by (simp add: Let_def)

theorem missing_secret_consumes_one_attempt_witness:
  "find_next_available_token (tokens_dir one_token) = Some primary \<and>
   map_of (race racing 99 (promote_token_to_primary primary (tokens_dir one_token))) primary = None \<and>
   load_loop racing [99] one_token = (AttemptsExceeded, backed_up) \<and>
   load_loop racing [98, 99] one_token = load_loop racing [99] backed_up"
proof -
  have a: "find_next_available_token (tokens_dir one_token) = Some primary"
    by (simp add: one_token_def find_next_available_token_def exists_def listdir_def primary_def)
  have b: "race racing i (promote_token_to_primary primary (tokens_dir one_token))
      = [(''1.copilot_token'', ''ghu_A'')]" for i
    by (simp add: one_token_def racing_def promote_token_to_primary_def rename_within_def primary_def)
  have c: "map_of (race racing i (promote_token_to_primary primary (tokens_dir one_token))) primary = None" for i
    unfolding b by (simp add: primary_def)
  from missing_secret_consumes_one_attempt[OF a c, of 99 "[]"]
       missing_secret_consumes_one_attempt[OF a c, of 98 "[99]"] a c[of 99]
  show ?thesis
    by (simp add: b backed_up_def)
qed

lemma backed_up_loop: "load_loop racing as backed_up = (AttemptsExceeded, backed_up)"
proof (induction as)
  case Nil
  show ?case by simp
next
  case (Cons a as)
  have "load_loop racing (a # as) backed_up = load_loop racing as backed_up"
    by (simp add: backed_up_def one_token_def racing_def
        find_next_available_token_def exists_def listdir_def primary_def promote_token_to_primary_def
        rename_within_def numbered_tokens_def endswith_def token_ext_def py_int_def strip_c_space_def is_c_space_def strip_def
        is_space_def is_digit_def digit_val_def)
  with Cons show ?case by simp
qed

lemma racing_first: "load_loop racing (a # as) one_token = load_loop racing as backed_up"
  by (simp add: backed_up_def one_token_def racing_def
        find_next_available_token_def exists_def listdir_def primary_def promote_token_to_primary_def
        rename_within_def)

text \<open>
  Claim C4 as stated says that a missing secret never counts towards the attempt
  bound. When the primary file is renamed away before each of the hundred reads,
  \<open>load_token\<close> returns \<open>False\<close> at the attempt bound, although the credential
  is in the tokens directory all along and its exchange would report a chat quota
  of 5.
\<close>

theorem missing_secret_counterexample:
  "load_token racing one_token = (False, backed_up) \<and>
   fst (load_token_exit racing one_token) = AttemptsExceeded \<and>
   find_next_available_token (tokens_dir backed_up) = Some ''1.copilot_token'' \<and>
   fetch racing 0 ''ghu_A'' = Some ok_response \<and> chat_quota ok_response = 5"
proof -
  have r: "recover_expired_tokens (now racing) one_token = (0, one_token)"
    by (simp add: recover_expired_tokens_def one_token_def listdir_def)
  have "load_token_exit racing one_token
      = load_loop racing (0 # [1..<MAX_TOKEN_ROTATION_ATTEMPTS]) one_token"
    by (simp only: load_token_exit_def r attempts_Cons snd_conv)
  also have "\<dots> = load_loop racing [1..<MAX_TOKEN_ROTATION_ATTEMPTS] backed_up"
    by (rule racing_first)
  also have "\<dots> = (AttemptsExceeded, backed_up)"
    by (rule backed_up_loop)
  finally have "load_token_exit racing one_token = (AttemptsExceeded, backed_up)" .
  moreover have "find_next_available_token (tokens_dir backed_up) = Some ''1.copilot_token''"
    by (simp add: backed_up_def one_token_def
        find_next_available_token_def exists_def listdir_def primary_def
        numbered_tokens_def endswith_def token_ext_def py_int_def strip_c_space_def is_c_space_def strip_def
        is_space_def is_digit_def digit_val_def)
  ultimately show ?thesis
    by (simp add: load_token_def racing_def serve_A_def chat_quota_def quota_info_of_def ok_response_def)
qed


section \<open>C9: credentials that share a reset date\<close>

text \<open>
  Claim C9 says that no credential is ever deleted. Two credentials are
  exhausted and their answers carry the same reset date: the second demotion
  renames its file onto the file of the first. After \<open>load_token\<close> the secret
  \<open>ghu_A\<close> of the first credential is in neither directory.
\<close>

theorem same_reset_date_overwrites:
  "map_of (tokens_dir two_tokens) primary = Some ''ghu_A'' \<and>
   load_token (calm serve_exhausted) two_tokens
     = (False, two_tokens\<lparr>tokens_dir := [],
                          quota_exhausted_dir := [(''1800000000.copilot_token'', ''ghu_B'')]\<rparr>) \<and>
   ''ghu_A'' \<notin> snd ` set (tokens_dir (snd (load_token (calm serve_exhausted) two_tokens))) \<and>
   ''ghu_A'' \<notin> snd ` set (quota_exhausted_dir (snd (load_token (calm serve_exhausted) two_tokens)))"
proof -
  have ev: "load_token (calm serve_exhausted) two_tokens
     = (False, two_tokens\<lparr>tokens_dir := [],
                          quota_exhausted_dir := [(''1800000000.copilot_token'', ''ghu_B'')]\<rparr>)"
    by (simp add: upt_rec load_token_def load_token_exit_def MAX_TOKEN_ROTATION_ATTEMPTS_def calm_def
        two_tokens_def serve_exhausted_def exhausted_response_def recover_expired_tokens_def listdir_def
        find_next_available_token_def exists_def primary_def promote_token_to_primary_def
        rename_within_def strip_def is_space_def chat_quota_def quota_info_of_def demote_def
        format_reset_date_def str_int_def str_nat.simps digit_char_def token_ext_def
        get_available_token_count_def endswith_def numbered_tokens_def py_int_def strip_c_space_def is_c_space_def is_digit_def
        digit_val_def)
  have "map_of (tokens_dir two_tokens) primary = Some ''ghu_A''"
    by (simp add: two_tokens_def primary_def)
  then show ?thesis
    by (simp add: ev)
qed


section \<open>C7: what a reader sees during the commit\<close>

lemma commit_trace_last: "last (commit_trace r m) = commit r m"
  by (simp add: commit_trace_def commit_def Let_def split: option.splits)

text \<open>
  Claim C7 says that a caller of the getters never sees a half-updated session.
  The commit assigns the token, the quota object and the telemetry flag one after
  the other, and the getters read the attributes without the lock. With the
  session \<open>old\<close>, \<open>{"chat": 3}\<close>, telemetry on, and the answer
  \<open>tid=abc\<close>, \<open>{"chat": 5}\<close>, telemetry off: after the first assignment the
  getters return the new token with the old quota object and the old flag, which
  is neither the session before the commit nor the session after it.
\<close>

theorem commit_half_updated_visible:
  "last (commit_trace ok_response numbered_token) = commit ok_response numbered_token \<and>
   get_current_token numbered_token = Some ''old'' \<and>
   get_quota_info numbered_token = [(''chat'', 3)] \<and>
   is_telemetry_enabled numbered_token \<and>
   get_current_token (commit ok_response numbered_token) = Some ''tid=abc'' \<and>
   get_quota_info (commit ok_response numbered_token) = [(''chat'', 5)] \<and>
   \<not> is_telemetry_enabled (commit ok_response numbered_token) \<and>
   get_current_token (hd (commit_trace ok_response numbered_token)) = Some ''tid=abc'' \<and>
   get_quota_info (hd (commit_trace ok_response numbered_token)) = [(''chat'', 3)] \<and>
   is_telemetry_enabled (hd (commit_trace ok_response numbered_token))"
  by (simp add: commit_trace_last)
     (simp add: commit_trace_def commit_def Let_def get_current_token_def get_quota_info_def
        is_telemetry_enabled_def numbered_token_def ok_response_def quota_info_of_def
        telemetry_flag_def)

end
